theory Spec2Isabelle
  imports Complex_Main "HOL-Library.Sublist"
begin

section \<open>Conventions of the embedding\<close>

text \<open>
  The development embeds the message-handling pipeline of \<^verbatim>\<open>wxauto_mgt/lite_bot\<close>.

  \<^item> A Python \<^verbatim>\<open>str\<close> is a \<open>string\<close>: one \<open>char\<close> per code point, so that
    \<open>length\<close> is Python's \<^verbatim>\<open>len\<close>.
  \<^item> A Python \<^verbatim>\<open>dict\<close> is a map \<open>'k \<rightharpoonup> 'v\<close>; a \<^verbatim>\<open>defaultdict\<close> read with
    \<^verbatim>\<open>.get(key, d)\<close> is the map read with default \<open>d\<close>.
  \<^item> \<^verbatim>\<open>time.time()\<close> is a \<open>real\<close> handed to the operation that reads the clock.
  \<^item> Python's unbounded \<^verbatim>\<open>int\<close> is \<open>int\<close>.
\<close>

type_synonym pytime = real

text \<open>The exceptions that can leave an operation of the model: \<^verbatim>\<open>re.error\<close>, and the
  \<^verbatim>\<open>OSError\<close> or \<^verbatim>\<open>ValueError\<close> of a file operation.\<close>

datatype py_exception = ReError | FileError

section \<open>rate_limit.py\<close>

subsection \<open>DedupeCache\<close>

record DedupeCache =
  window_seconds :: int
  cache :: "string \<rightharpoonup> pytime"

definition DedupeCache_init :: "int \<Rightarrow> DedupeCache" where
  "DedupeCache_init w = \<lparr>window_seconds = w, cache = Map.empty\<rparr>"

text \<open>
  The two loops at the head of \<^verbatim>\<open>seen_recently\<close>: every entry with
  \<^verbatim>\<open>now - ts > window_seconds\<close> is popped.
\<close>

definition drop_expired :: "int \<Rightarrow> pytime \<Rightarrow> (string \<rightharpoonup> pytime) \<Rightarrow> (string \<rightharpoonup> pytime)" where
  "drop_expired w now c =
     (\<lambda>k. case c k of
            None \<Rightarrow> None
          | Some ts \<Rightarrow> if now - ts > of_int w then None else Some ts)"

definition seen_recently :: "DedupeCache \<Rightarrow> string \<Rightarrow> pytime \<Rightarrow> bool \<times> DedupeCache" where
  "seen_recently d key now =
     (let c = drop_expired (window_seconds d) now (cache d) in
      if c key \<noteq> None then (True, d\<lparr>cache := c\<rparr>)
      else (False, d\<lparr>cache := c(key \<mapsto> now)\<rparr>))"

text \<open>
  A run of successive \<^verbatim>\<open>seen_recently\<close> calls, each with its key and the clock value
  it read; the result is the list of answers, in call order.
\<close>

fun seen_run :: "DedupeCache \<Rightarrow> (string \<times> pytime) list \<Rightarrow> bool list" where
  "seen_run d [] = []"
| "seen_run d ((key, now) # calls) =
     (let (b, d') = seen_recently d key now in b # seen_run d' calls)"

subsection \<open>CooldownManager\<close>

record CooldownManager =
  cm_cooldown_seconds :: int
  last_hit :: "string \<rightharpoonup> pytime"

definition CooldownManager_init :: "int \<Rightarrow> CooldownManager" where
  "CooldownManager_init cd = \<lparr>cm_cooldown_seconds = cd, last_hit = Map.empty\<rparr>"

definition get_or :: "('k \<rightharpoonup> 'v) \<Rightarrow> 'k \<Rightarrow> 'v \<Rightarrow> 'v" where
  "get_or m k d = (case m k of None \<Rightarrow> d | Some v \<Rightarrow> v)"

definition in_cooldown :: "CooldownManager \<Rightarrow> string \<Rightarrow> pytime \<Rightarrow> bool \<times> CooldownManager" where
  "in_cooldown m key now =
     (if now - get_or (last_hit m) key 0 < of_int (cm_cooldown_seconds m) then (True, m)
      else (False, m\<lparr>last_hit := (last_hit m)(key \<mapsto> now)\<rparr>))"

subsection \<open>FailureTracker\<close>

record FailureTracker =
  max_failures :: int
  ft_cooldown_seconds :: int
  failures :: "string \<rightharpoonup> int"
  cooldowns :: "string \<rightharpoonup> pytime"

definition FailureTracker_init :: "int \<Rightarrow> int \<Rightarrow> FailureTracker" where
  "FailureTracker_init mf cd =
     \<lparr>max_failures = mf, ft_cooldown_seconds = cd, failures = Map.empty, cooldowns = Map.empty\<rparr>"

definition register_failure :: "FailureTracker \<Rightarrow> string \<Rightarrow> pytime \<Rightarrow> FailureTracker" where
  "register_failure t key now =
     (let n = get_or (failures t) key 0 + 1;
          t1 = t\<lparr>failures := (failures t)(key \<mapsto> n)\<rparr>
      in if n \<ge> max_failures t1
         then t1\<lparr>cooldowns := (cooldowns t1)(key \<mapsto> now + of_int (ft_cooldown_seconds t1))\<rparr>
         else t1)"

definition register_success :: "FailureTracker \<Rightarrow> string \<Rightarrow> FailureTracker" where
  "register_success t key =
     t\<lparr>failures := (failures t)(key \<mapsto> 0), cooldowns := (cooldowns t)(key := None)\<rparr>"

definition is_blocked :: "FailureTracker \<Rightarrow> string \<Rightarrow> pytime \<Rightarrow> bool" where
  "is_blocked t key now =
     (let until = get_or (cooldowns t) key 0 in until \<noteq> 0 \<and> now < until)"

text \<open>
  The tracker's life: a sequence of \<^verbatim>\<open>register_failure\<close> and \<^verbatim>\<open>register_success\<close>
  calls applied to a freshly constructed tracker (\<^verbatim>\<open>is_blocked\<close> only reads).
\<close>

datatype ft_call = Failure string pytime | Success string

fun ft_apply :: "ft_call \<Rightarrow> FailureTracker \<Rightarrow> FailureTracker" where
  "ft_apply (Failure key now) t = register_failure t key now"
| "ft_apply (Success key) t = register_success t key"

definition ft_run :: "int \<Rightarrow> int \<Rightarrow> ft_call list \<Rightarrow> FailureTracker" where
  "ft_run mf cd calls = fold ft_apply calls (FailureTracker_init mf cd)"


section \<open>token_utils.py\<close>

text \<open>
  \<^verbatim>\<open>max(1, math.ceil(len(text) / 4))\<close> for a non-empty text, \<open>0\<close> for the empty one.
\<close>

definition estimate_tokens :: "string \<Rightarrow> int" where
  "estimate_tokens text =
     (if text = [] then 0 else max 1 \<lceil>real (length text) / 4\<rceil>)"

text \<open>
  A chat message is a dict with a role and a content; the content is either a string or a
  list of typed parts (\<^verbatim>\<open>{"type": "text", "text": ...}\<close> or
  \<^verbatim>\<open>{"type": "image_url", "image_url": {"url": ...}}\<close>).
\<close>

datatype part = TextPart string | ImageUrlPart string

datatype content = Str string | Parts "part list"

record message =
  role :: string
  content :: content

fun part_tokens :: "part \<Rightarrow> int" where
  "part_tokens (TextPart t) = estimate_tokens t"
| "part_tokens (ImageUrlPart u) = 0"

definition estimate_message_tokens :: "message \<Rightarrow> int" where
  "estimate_message_tokens m =
     (case content m of
        Parts items \<Rightarrow> sum_list (map part_tokens items)
      | Str s \<Rightarrow> estimate_tokens s)"

definition estimate_messages_tokens :: "message list \<Rightarrow> int" where
  "estimate_messages_tokens messages = sum_list (map estimate_message_tokens messages)"

text \<open>
  Python's \<^verbatim>\<open>text[:n]\<close>: the first \<open>n\<close> items for \<open>n \<ge> 0\<close>, all but the last
  \<open>-n\<close> items for \<open>n < 0\<close>.
\<close>

definition slice_to :: "'a list \<Rightarrow> int \<Rightarrow> 'a list" where
  "slice_to xs n = (if 0 \<le> n then take (nat n) xs else take (nat (int (length xs) + n)) xs)"

definition truncate_text_to_tokens :: "string \<Rightarrow> int \<Rightarrow> string" where
  "truncate_text_to_tokens text max_tokens =
     (if estimate_tokens text \<le> max_tokens then text
      else let max_chars = max_tokens * 4 in slice_to text max_chars)"

section \<open>config.py\<close>

record PersonaConfig =
  global_prompt :: string
  private_prompt :: "string option"
  group_prompt :: "string option"

record TriggerConfig =
  private_mode :: string
  private_keywords :: "string list"
  private_regex :: "string option"
  group_mode :: string
  group_keywords :: "string list"

text \<open>Of \<^verbatim>\<open>ApiConfig\<close> the pipeline reads \<^verbatim>\<open>max_output_tokens\<close> only; the other
  fields configure the HTTP client.\<close>

record ApiConfig =
  max_output_tokens :: int

record LimitsConfig =
  token_budget :: int
  min_reserved_output_tokens :: int
  max_group_output_tokens :: int
  max_private_output_tokens :: int
  max_single_message_tokens :: int

record DedupeConfig =
  dc_window_seconds :: int

record RateLimitConfig =
  session_cooldown_seconds :: int
  user_cooldown_seconds :: int

record FailureConfig =
  max_consecutive_failures :: int
  fc_cooldown_seconds :: int
  fallback_reply :: string

record VisionConfig =
  enable_private :: bool
  enable_group :: bool

record ReplyConfig =
  private_fixed_reply :: "string option"
  group_fixed_reply :: "string option"

record BotConfig =
  persona :: PersonaConfig
  trigger :: TriggerConfig
  api :: ApiConfig
  limits :: LimitsConfig
  dedupe_cfg :: DedupeConfig
  rate_limit :: RateLimitConfig
  failure :: FailureConfig
  vision :: VisionConfig
  reply :: ReplyConfig
  self_user_id :: "string option"

text \<open>Truthiness of an optional string: neither \<^verbatim>\<open>None\<close> nor empty.\<close>

definition truthy :: "'a list option \<Rightarrow> bool" where
  "truthy x = (case x of None \<Rightarrow> False | Some s \<Rightarrow> s \<noteq> [])"

definition prompt_for_scope :: "PersonaConfig \<Rightarrow> string \<Rightarrow> string" where
  "prompt_for_scope p scope =
     (if scope = ''group'' \<and> truthy (group_prompt p)
        then global_prompt p @ [CHR 0x0A] @ the (group_prompt p)
      else if scope = ''private'' \<and> truthy (private_prompt p)
        then global_prompt p @ [CHR 0x0A] @ the (private_prompt p)
      else global_prompt p)"

section \<open>bot.py: the context assembler\<close>

text \<open>
  \<^verbatim>\<open>_truncate_latest\<close>. The budget argument is optional, and
  \<^verbatim>\<open>budget = budget or max_single_message_tokens\<close> replaces both \<^verbatim>\<open>None\<close> and
  \<open>0\<close> by the single-message cap. Only the first message is rewritten.
\<close>

fun truncate_part :: "int \<Rightarrow> part \<Rightarrow> part" where
  "truncate_part budget (TextPart t) = TextPart (truncate_text_to_tokens t budget)"
| "truncate_part budget (ImageUrlPart u) = ImageUrlPart u"

definition truncate_latest :: "LimitsConfig \<Rightarrow> message list \<Rightarrow> int option \<Rightarrow> message list" where
  "truncate_latest lc latest_messages budget =
     (case latest_messages of
        [] \<Rightarrow> []
      | m # rest \<Rightarrow>
          let b = (case budget of
                     None \<Rightarrow> max_single_message_tokens lc
                   | Some b' \<Rightarrow> if b' = 0 then max_single_message_tokens lc else b')
          in (case content m of
                Parts items \<Rightarrow> m\<lparr>content := Parts (map (truncate_part b) items)\<rparr> # rest
              | Str s \<Rightarrow> m\<lparr>content := Str (truncate_text_to_tokens s b)\<rparr> # rest))"

text \<open>
  The history loop applies \<^verbatim>\<open>estimate_tokens\<close> to the record's content itself: for a
  string that is the estimate above, for a list Python's \<^verbatim>\<open>len\<close> counts its items.
\<close>

definition estimate_tokens_content :: "content \<Rightarrow> int" where
  "estimate_tokens_content c =
     (case c of
        Str s \<Rightarrow> estimate_tokens s
      | Parts items \<Rightarrow> if items = [] then 0 else max 1 \<lceil>real (length items) / 4\<rceil>)"

text \<open>
  The loop over \<^verbatim>\<open>reversed(history_messages)\<close>: records are appended while they fit
  the remaining budget, and the loop breaks at the first that does not.
\<close>

fun take_fitting :: "int \<Rightarrow> message list \<Rightarrow> message list" where
  "take_fitting remaining [] = []"
| "take_fitting remaining (r # rs) =
     (let record_tokens = estimate_tokens_content (content r) in
      if record_tokens \<le> remaining then r # take_fitting (remaining - record_tokens) rs
      else [])"

definition trimmed_history :: "int \<Rightarrow> message list \<Rightarrow> message list" where
  "trimmed_history remaining history_messages = rev (take_fitting remaining (rev history_messages))"

definition latest_after_cap :: "LimitsConfig \<Rightarrow> message list \<Rightarrow> message list" where
  "latest_after_cap lc latest_messages =
     (if estimate_messages_tokens latest_messages > max_single_message_tokens lc
      then truncate_latest lc latest_messages None else latest_messages)"

definition latest_after_budget :: "LimitsConfig \<Rightarrow> message list \<Rightarrow> message list \<Rightarrow> int \<Rightarrow> message list" where
  "latest_after_budget lc system_messages latest_messages budget =
     (let system_tokens = estimate_messages_tokens system_messages;
          latest1 = latest_after_cap lc latest_messages;
          total = system_tokens + estimate_messages_tokens latest1
      in if total > budget then truncate_latest lc latest1 (Some (budget - system_tokens))
         else latest1)"

definition trim_context ::
  "LimitsConfig \<Rightarrow> message list \<Rightarrow> message list \<Rightarrow> message list \<Rightarrow> int \<Rightarrow> message list" where
  "trim_context lc system_messages history_messages latest_messages budget =
     (let system_tokens = estimate_messages_tokens system_messages;
          latest2 = latest_after_budget lc system_messages latest_messages budget;
          total = system_tokens + estimate_messages_tokens latest2;
          remaining = budget - total
      in system_messages @ trimmed_history remaining history_messages @ latest2)"


section \<open>models.py\<close>

type_synonym bytes = "char list"

record IncomingMessage =
  message_id :: string
  timestamp :: pytime
  sender_id :: string
  sender_name :: string
  msg_content :: "string option"
  msg_type :: string
  is_group :: bool
  group_id :: "string option"
  group_name :: "string option"
  is_at :: bool
  conversation_id :: "string option"
  image_bytes :: "bytes option"
  image_name :: "string option"
  image_mime :: "string option"

record SessionInfo =
  scope :: string
  session_id :: string
  session_key :: string
  display_name :: "string option"

section \<open>storage.py\<close>

text \<open>
  The session index is the dict it serialises and a history file is the list of records of
  its lines; both are kept in stores of their own. The two hash functions of
  \<^verbatim>\<open>hashlib\<close> are parameters.
\<close>

record StoredImage =
  relative_path :: string
  sha256 :: string
  size_bytes :: int
  mime_type :: string

record session_entry =
  entry_id :: string
  entry_display_name :: "string option"
  entry_scope :: string
  entry_key :: string

record image_info =
  ii_path :: string
  ii_sha256 :: string
  ii_size :: int
  ii_mime :: string

record history_record =
  hr_timestamp :: pytime
  direction :: string
  sender :: string
  hr_type :: string
  hr_content :: "string option"
  hr_message_id :: string
  hr_session_key :: string
  hr_image :: "image_info option"

subsection \<open>Paths and the file system of the media files\<close>

text \<open>
  Paths follow POSIX, as \<^verbatim>\<open>pathlib.PosixPath\<close> and \<^verbatim>\<open>posixpath\<close> treat them. A path is
  the list of its parts from the root; a part is a name or \<^verbatim>\<open>..\<close>. Parsing a string drops
  empty parts and \<^verbatim>\<open>.\<close> parts, and joining with a string that starts with a slash
  replaces the path. A location is a path of names only.
\<close>

type_synonym path = "string list"

fun split_at :: "char \<Rightarrow> string \<Rightarrow> string list" where
  "split_at c [] = [[]]"
| "split_at c (x # xs) =
     (if x = c then [] # split_at c xs
      else (case split_at c xs of [] \<Rightarrow> [[x]] | w # ws \<Rightarrow> (x # w) # ws))"

definition parts_of :: "string \<Rightarrow> path" where
  "parts_of s = filter (\<lambda>w. w \<noteq> [] \<and> w \<noteq> ''.'') (split_at (CHR ''/'') s)"

definition is_abs :: "string \<Rightarrow> bool" where
  "is_abs s = (case s of [] \<Rightarrow> False | x # xs \<Rightarrow> x = CHR ''/'')"

definition joinpath :: "path \<Rightarrow> string \<Rightarrow> path" where
  "joinpath p s = (if is_abs s then parts_of s else p @ parts_of s)"

definition enter :: "path \<Rightarrow> string \<Rightarrow> path" where
  "enter cur c = (if c = ''..'' then butlast cur else cur @ [c])"

text \<open>
  The file system: the directories that exist besides the root, the files with their bytes,
  and the names the system accepts for a new entry (its limits on names are not fixed
  here). There are no symbolic links, and space and permissions never fail an operation.
\<close>

record filesystem =
  dirs :: "path set"
  files :: "path \<rightharpoonup> bytes"
  accepts :: "string \<Rightarrow> bool"

definition is_dir :: "filesystem \<Rightarrow> path \<Rightarrow> bool" where
  "is_dir fs loc = (loc = [] \<or> loc \<in> dirs fs)"

text \<open>
  How the system resolves a path: every part but the last must lead to a directory; the
  last part names the entry in the directory reached.
\<close>

fun walk :: "filesystem \<Rightarrow> path \<Rightarrow> string list \<Rightarrow> path option" where
  "walk fs cur [] = Some cur"
| "walk fs cur (c # cs) = (if is_dir fs (enter cur c) then walk fs (enter cur c) cs else None)"

definition locate :: "filesystem \<Rightarrow> path \<Rightarrow> path option" where
  "locate fs p =
     (if p = [] then Some []
      else (case walk fs [] (butlast p) of
              None \<Rightarrow> None
            | Some cur \<Rightarrow> Some (enter cur (last p))))"

text \<open>Python refuses a path with a NUL character before the system sees it.\<close>

definition has_nul :: "path \<Rightarrow> bool" where
  "has_nul p = list_ex (\<lambda>w. CHR 0x00 \<in> set w) p"

text \<open>\<^verbatim>\<open>Path.exists()\<close>: false where the path cannot be resolved.\<close>

definition fs_exists :: "filesystem \<Rightarrow> path \<Rightarrow> bool" where
  "fs_exists fs p =
     (\<not> has_nul p \<and>
      (case locate fs p of
         None \<Rightarrow> False
       | Some loc \<Rightarrow> is_dir fs loc \<or> files fs loc \<noteq> None))"

text \<open>
  \<^verbatim>\<open>Path.mkdir(parents=True, exist_ok=True)\<close>: the directories along the path are created
  from the root on where they are missing; it raises where a part is a file or a name the
  system refuses, and what was created before stays. The result says whether it returned.
\<close>

fun mkdir_walk :: "filesystem \<Rightarrow> path \<Rightarrow> string list \<Rightarrow> bool \<times> filesystem" where
  "mkdir_walk fs cur [] = (True, fs)"
| "mkdir_walk fs cur (c # cs) =
     (if is_dir fs (enter cur c) then mkdir_walk fs (enter cur c) cs
      else if c = ''..'' \<or> files fs (enter cur c) \<noteq> None \<or> \<not> accepts fs c then (False, fs)
      else mkdir_walk (fs\<lparr>dirs := insert (enter cur c) (dirs fs)\<rparr>) (enter cur c) cs)"

definition fs_mkdir :: "filesystem \<Rightarrow> path \<Rightarrow> bool \<times> filesystem" where
  "fs_mkdir fs p = (if has_nul p then (False, fs) else mkdir_walk fs [] p)"

text \<open>
  \<^verbatim>\<open>Path.write_bytes(data)\<close>: the file is created or replaced; it raises where the path
  cannot be resolved, names a directory, or ends in a name the system refuses.
\<close>

definition fs_write_bytes :: "filesystem \<Rightarrow> path \<Rightarrow> bytes \<Rightarrow> bool \<times> filesystem" where
  "fs_write_bytes fs p data =
     (if has_nul p \<or> p = [] then (False, fs)
      else (case locate fs p of
              None \<Rightarrow> (False, fs)
            | Some loc \<Rightarrow>
                if is_dir fs loc \<or> last p = ''..''
                   \<or> (files fs loc = None \<and> \<not> accepts fs (last p))
                then (False, fs)
                else (True, fs\<lparr>files := (files fs)(loc \<mapsto> data)\<rparr>)))"

text \<open>
  \<^verbatim>\<open>os.path.relpath(path, start)\<close> for absolute paths: both are normalised part by part
  (\<^verbatim>\<open>..\<close> removes the part before it and is dropped at the root), the common prefix is
  removed, every remaining part of the start becomes \<^verbatim>\<open>..\<close>, and the parts are joined
  with slashes; the result for no parts is a dot.
\<close>

definition normpath :: "path \<Rightarrow> path" where
  "normpath p = foldl enter [] p"

fun common_prefix :: "'a list \<Rightarrow> 'a list \<Rightarrow> nat" where
  "common_prefix (x # xs) (y # ys) = (if x = y then Suc (common_prefix xs ys) else 0)"
| "common_prefix xs ys = 0"

fun join_slash :: "string list \<Rightarrow> string" where
  "join_slash [] = []"
| "join_slash [w] = w"
| "join_slash (w # ws) = w @ ''/'' @ join_slash ws"

definition relpath :: "path \<Rightarrow> path \<Rightarrow> string" where
  "relpath p start =
     (let start_list = normpath start;
          path_list = normpath p;
          i = common_prefix start_list path_list;
          rel_list = replicate (length start_list - i) ''..'' @ drop i path_list
      in if rel_list = [] then ''.'' else join_slash rel_list)"

subsection \<open>SessionIndex and SessionStore\<close>

text \<open>
  \<open>base_dir\<close> is the base directory as an absolute path. \<open>write_log\<close> lists the paths
  handed to \<^verbatim>\<open>write_bytes\<close> that it wrote, in order, so that a skipped write can be told
  from a write of equal bytes.
\<close>

record SessionStore =
  base_dir :: path
  sessions :: "string \<rightharpoonup> session_entry"
  history_files :: "string \<times> string \<rightharpoonup> history_record list"
  media :: filesystem
  write_log :: "path list"

definition SessionStore_init :: "path \<Rightarrow> filesystem \<Rightarrow> SessionStore" where
  "SessionStore_init base fs =
     \<lparr>base_dir = base, sessions = Map.empty, history_files = Map.empty, media = fs,
      write_log = []\<rparr>"

definition get_or_create ::
  "(string \<Rightarrow> string) \<Rightarrow> (string \<rightharpoonup> session_entry) \<Rightarrow> string \<Rightarrow> string \<Rightarrow> string option
     \<Rightarrow> string \<times> (string \<rightharpoonup> session_entry)" where
  "get_or_create sha1_hex sess scope' key display =
     (let session_key' = scope' @ '':'' @ key in
      case sess session_key' of
        Some e \<Rightarrow> (entry_id e, sess)
      | None \<Rightarrow>
          let session_id' = take 16 (sha1_hex session_key') in
          (session_id',
           sess(session_key' \<mapsto>
             \<lparr>entry_id = session_id', entry_display_name = display,
              entry_scope = scope', entry_key = key\<rparr>)))"

definition resolve_session ::
  "(string \<Rightarrow> string) \<Rightarrow> SessionStore \<Rightarrow> string \<Rightarrow> string \<Rightarrow> string option
     \<Rightarrow> string \<times> SessionStore" where
  "resolve_session sha1_hex st scope' key display =
     (let (sid, sess') = get_or_create sha1_hex (sessions st) scope' key display
      in (sid, st\<lparr>sessions := sess'\<rparr>))"

definition load_history :: "SessionStore \<Rightarrow> string \<Rightarrow> string \<Rightarrow> history_record list" where
  "load_history st scope' sid = get_or (history_files st) (scope', sid) []"

definition append_history :: "SessionStore \<Rightarrow> string \<Rightarrow> string \<Rightarrow> history_record \<Rightarrow> SessionStore" where
  "append_history st scope' sid r =
     st\<lparr>history_files := (history_files st)((scope', sid) \<mapsto> load_history st scope' sid @ [r])\<rparr>"

text \<open>\<^verbatim>\<open>mime_type.split("/")[-1]\<close>: what follows the last slash.\<close>

definition after_last_slash :: "string \<Rightarrow> string" where
  "after_last_slash s = rev (takeWhile (\<lambda>c. c \<noteq> CHR ''/'') (rev s))"

definition session_dir :: "SessionStore \<Rightarrow> string \<Rightarrow> string \<Rightarrow> path" where
  "session_dir st scope' sid = joinpath (joinpath (base_dir st) scope') sid"

definition images_dir :: "SessionStore \<Rightarrow> string \<Rightarrow> string \<Rightarrow> path" where
  "images_dir st scope' sid = joinpath (session_dir st scope' sid) ''images''"

definition image_filename :: "(bytes \<Rightarrow> string) \<Rightarrow> bytes \<Rightarrow> string \<Rightarrow> string option \<Rightarrow> string" where
  "image_filename sha256_hex data mime mid =
     (let sha = sha256_hex data;
          extension = (if CHR ''/'' \<in> set mime then after_last_slash mime else ''bin'');
          stable_name = (if truthy mid then the mid else take 16 sha);
          filename = stable_name @ ''.'' @ extension
      in filename)"

definition image_target ::
  "(bytes \<Rightarrow> string) \<Rightarrow> SessionStore \<Rightarrow> string \<Rightarrow> string \<Rightarrow> bytes \<Rightarrow> string \<Rightarrow> string option
     \<Rightarrow> path" where
  "image_target sha256_hex st scope' sid data mime mid =
     joinpath (images_dir st scope' sid) (image_filename sha256_hex data mime mid)"

definition image_descriptor ::
  "(bytes \<Rightarrow> string) \<Rightarrow> SessionStore \<Rightarrow> string \<Rightarrow> string \<Rightarrow> bytes \<Rightarrow> string \<Rightarrow> string option
     \<Rightarrow> StoredImage" where
  "image_descriptor sha256_hex st scope' sid data mime mid =
     \<lparr>relative_path = relpath (image_target sha256_hex st scope' sid data mime mid) (base_dir st),
      sha256 = sha256_hex data, size_bytes = int (length data), mime_type = mime\<rparr>"

text \<open>
  \<^verbatim>\<open>save_image\<close> returns the descriptor or raises; the store afterwards is the second
  component in either case.
\<close>

definition save_image ::
  "(bytes \<Rightarrow> string) \<Rightarrow> SessionStore \<Rightarrow> string \<Rightarrow> string \<Rightarrow> bytes \<Rightarrow> string \<Rightarrow> string option
     \<Rightarrow> (py_exception + StoredImage) \<times> SessionStore" where
  "save_image sha256_hex st scope' sid data mime mid =
     (let target_path = image_target sha256_hex st scope' sid data mime mid;
          (made, fs1) = fs_mkdir (media st) (images_dir st scope' sid);
          st1 = st\<lparr>media := fs1\<rparr>
      in if \<not> made then (Inl FileError, st1)
         else if fs_exists fs1 target_path
           then (Inr (image_descriptor sha256_hex st scope' sid data mime mid), st1)
         else
           let (written, fs2) = fs_write_bytes fs1 target_path data in
           if \<not> written then (Inl FileError, st1)
           else (Inr (image_descriptor sha256_hex st scope' sid data mime mid),
                 st1\<lparr>media := fs2, write_log := write_log st1 @ [target_path]\<rparr>))"

section \<open>bot.py: the orchestrator\<close>

text \<open>
  What the orchestrator calls outside this repository is a parameter: the hash functions,
  Base64, \<^verbatim>\<open>re.search\<close> (\<open>None\<close> when it raises \<^verbatim>\<open>re.error\<close>), \<^verbatim>\<open>str.lower\<close>,
  \<^verbatim>\<open>str.isspace\<close> of one code point (the whitespace that \<^verbatim>\<open>str.strip\<close> removes), the
  formatting of a float inside an f-string, and the model client's \<^verbatim>\<open>send\<close>, which
  returns the text or raises. Each place that reads \<^verbatim>\<open>time.time()\<close> has its own clock
  value.
\<close>

datatype llm_error = Timeout | ConnectionFailed | HTTPError nat | OtherError string

record env =
  sha1_hexdigest :: "string \<Rightarrow> string"
  sha256_hexdigest :: "bytes \<Rightarrow> string"
  b64encode :: "bytes \<Rightarrow> string"
  re_search :: "string \<Rightarrow> string \<Rightarrow> bool option"
  lower :: "string \<Rightarrow> string"
  isspace :: "char \<Rightarrow> bool"
  str_float :: "real \<Rightarrow> string"
  client_send :: "message list \<Rightarrow> llm_error + string"
  now_dedupe :: pytime
  now_blocked :: pytime
  now_session_cooldown :: pytime
  now_user_cooldown :: pytime
  now_failure :: pytime
  now_reply_timestamp :: pytime
  now_reply_id :: pytime

text \<open>
  The bot's state. \<open>llm_requests\<close> lists the message lists handed to \<^verbatim>\<open>client.send\<close>
  and \<open>sent_texts\<close> the calls of \<^verbatim>\<open>adapter.send_text\<close>, both in order.
\<close>

record WxAutoBot =
  config :: BotConfig
  store :: SessionStore
  dedupe :: DedupeCache
  session_cooldown :: CooldownManager
  user_cooldown :: CooldownManager
  failure_tracker :: FailureTracker
  vision_cache :: "string \<rightharpoonup> string"
  llm_requests :: "message list list"
  sent_texts :: "(SessionInfo \<times> string) list"

definition WxAutoBot_init :: "BotConfig \<Rightarrow> SessionStore \<Rightarrow> WxAutoBot" where
  "WxAutoBot_init cfg st =
     \<lparr>config = cfg, store = st,
      dedupe = DedupeCache_init (dc_window_seconds (dedupe_cfg cfg)),
      session_cooldown = CooldownManager_init (session_cooldown_seconds (rate_limit cfg)),
      user_cooldown = CooldownManager_init (user_cooldown_seconds (rate_limit cfg)),
      failure_tracker = FailureTracker_init (max_consecutive_failures (failure cfg))
                          (fc_cooldown_seconds (failure cfg)),
      vision_cache = Map.empty, llm_requests = [], sent_texts = []\<rparr>"

definition is_self_message :: "BotConfig \<Rightarrow> IncomingMessage \<Rightarrow> bool" where
  "is_self_message cfg msg =
     (if \<not> truthy (self_user_id cfg) then False
      else Some (sender_id msg) = self_user_id cfg)"

definition or_str :: "string option \<Rightarrow> string \<Rightarrow> string" where
  "or_str x d = (if truthy x then the x else d)"

definition resolve_session_of :: "env \<Rightarrow> WxAutoBot \<Rightarrow> IncomingMessage \<Rightarrow> SessionInfo \<times> WxAutoBot" where
  "resolve_session_of e self msg =
     (let scope' = (if is_group msg then ''group'' else ''private'');
          session_key' =
            (if truthy (conversation_id msg) then the (conversation_id msg)
             else if is_group msg
               then or_str (group_id msg) (or_str (group_name msg) (sender_id msg))
             else sender_id msg);
          display = (if is_group msg then group_name msg else Some (sender_name msg));
          (sid, st') = resolve_session (sha1_hexdigest e) (store self) scope' session_key' display
      in (\<lparr>scope = scope', session_id = sid, session_key = session_key', display_name = display\<rparr>,
          self\<lparr>store := st'\<rparr>))"

definition hash_content :: "env \<Rightarrow> IncomingMessage \<Rightarrow> string" where
  "hash_content e msg =
     sha1_hexdigest e
       (sender_id msg @ '':'' @ (case msg_content msg of None \<Rightarrow> ''None'' | Some c \<Rightarrow> c)
          @ '':'' @ str_float e (timestamp msg))"

definition match_keywords :: "env \<Rightarrow> string option \<Rightarrow> string list \<Rightarrow> bool" where
  "match_keywords e content' keywords =
     (if \<not> truthy content' \<or> keywords = [] then False
      else let lowered = lower e (the content')
           in list_ex (\<lambda>keyword. sublist (lower e keyword) lowered) keywords)"

definition should_trigger :: "env \<Rightarrow> BotConfig \<Rightarrow> IncomingMessage \<Rightarrow> bool option" where
  "should_trigger e cfg msg =
     (if is_group msg then
        (if group_mode (trigger cfg) = ''mention_keyword''
         then Some (is_at msg \<and> match_keywords e (msg_content msg) (group_keywords (trigger cfg)))
         else Some (is_at msg))
      else if private_mode (trigger cfg) = ''always'' then Some True
      else if private_mode (trigger cfg) = ''keyword''
        then Some (match_keywords e (msg_content msg) (private_keywords (trigger cfg)))
      else if private_mode (trigger cfg) = ''regex'' \<and> truthy (private_regex (trigger cfg))
        then re_search e (the (private_regex (trigger cfg))) (or_str (msg_content msg) [])
      else Some False)"

definition received_record :: "IncomingMessage \<Rightarrow> SessionInfo \<Rightarrow> StoredImage option \<Rightarrow> history_record" where
  "received_record msg session image_meta =
     \<lparr>hr_timestamp = timestamp msg, direction = ''received'', sender = sender_name msg,
      hr_type = msg_type msg, hr_content = msg_content msg, hr_message_id = message_id msg,
      hr_session_key = session_key session,
      hr_image = (case image_meta of
                    None \<Rightarrow> None
                  | Some im \<Rightarrow> Some \<lparr>ii_path = relative_path im, ii_sha256 = sha256 im,
                                      ii_size = size_bytes im, ii_mime = mime_type im\<rparr>)\<rparr>"

definition append_history_of :: "WxAutoBot \<Rightarrow> IncomingMessage \<Rightarrow> SessionInfo \<Rightarrow> StoredImage option \<Rightarrow> WxAutoBot" where
  "append_history_of self msg session image_meta =
     self\<lparr>store := append_history (store self) (scope session) (session_id session)
                     (received_record msg session image_meta)\<rparr>"

definition reply_record :: "env \<Rightarrow> SessionInfo \<Rightarrow> string \<Rightarrow> history_record" where
  "reply_record e session text =
     \<lparr>hr_timestamp = now_reply_timestamp e, direction = ''sent'', sender = ''bot'',
      hr_type = ''text'', hr_content = Some text,
      hr_message_id = sha1_hexdigest e (''reply:'' @ text @ '':'' @ str_float e (now_reply_id e)),
      hr_session_key = session_key session, hr_image = None\<rparr>"

definition append_reply :: "env \<Rightarrow> WxAutoBot \<Rightarrow> SessionInfo \<Rightarrow> string \<Rightarrow> WxAutoBot" where
  "append_reply e self session text =
     self\<lparr>store := append_history (store self) (scope session) (session_id session)
                     (reply_record e session text)\<rparr>"

text \<open>
  Two literals of the source are outside ASCII: the placeholder of an image record (a bracket,
  two CJK code points, then \<^verbatim>\<open>] hash=\<close>), and the default prompt for an image without
  text (eight CJK code points). A \<open>char\<close> has eight bits, so each such code point is
  written as one char above \<^verbatim>\<open>0x7F\<close>: lengths are those of the source.
\<close>

definition image_placeholder :: string where
  "image_placeholder = [CHR ''['', CHR 0x80, CHR 0x81] @ ''] hash=''"

definition default_image_prompt :: string where
  "default_image_prompt =
     [CHR 0x82, CHR 0x83, CHR 0x84, CHR 0x85, CHR 0x86, CHR 0x80, CHR 0x81, CHR 0x87]"

definition record_to_message :: "history_record \<Rightarrow> message" where
  "record_to_message r =
     (let role' = (if direction r = ''sent'' then ''assistant'' else ''user'');
          content0 =
            (if hr_type r = ''image''
             then image_placeholder @ (case hr_image r of None \<Rightarrow> [] | Some i \<Rightarrow> ii_sha256 i)
             else or_str (hr_content r) []);
          content1 =
            (if sender r \<noteq> [] \<and> role' = ''user'' then sender r @ '': '' @ content0
             else content0)
      in \<lparr>role = role', content = Str content1\<rparr>)"

definition history_to_messages :: "history_record list \<Rightarrow> message list" where
  "history_to_messages history = map record_to_message history"

definition image_to_message :: "env \<Rightarrow> bytes \<Rightarrow> string \<Rightarrow> part" where
  "image_to_message e data mime = ImageUrlPart (''data:'' @ mime @ '';base64,'' @ b64encode e data)"

definition build_latest_message :: "env \<Rightarrow> IncomingMessage \<Rightarrow> message list" where
  "build_latest_message e msg =
     (if msg_type msg = ''image'' \<and> truthy (image_bytes msg) \<and> truthy (image_mime msg)
      then [\<lparr>role = ''user'',
             content = Parts [TextPart (or_str (msg_content msg) default_image_prompt),
                              image_to_message e (the (image_bytes msg)) (the (image_mime msg))]\<rparr>]
      else [\<lparr>role = ''user'', content = Str (or_str (msg_content msg) [])\<rparr>])"

definition fixed_reply_for_scope :: "BotConfig \<Rightarrow> string \<Rightarrow> string option" where
  "fixed_reply_for_scope cfg scope' =
     (if scope' = ''group'' then group_fixed_reply (reply cfg)
      else private_fixed_reply (reply cfg))"

definition should_process_image :: "BotConfig \<Rightarrow> IncomingMessage \<Rightarrow> bool" where
  "should_process_image cfg msg =
     (if is_group msg then enable_group (vision cfg) \<and> is_at msg
      else enable_private (vision cfg))"

definition max_output_tokens_of :: "BotConfig \<Rightarrow> string \<Rightarrow> int" where
  "max_output_tokens_of cfg scope' =
     (if scope' = ''group''
      then min (max_group_output_tokens (limits cfg)) (max_output_tokens (api cfg))
      else min (max_private_output_tokens (limits cfg)) (max_output_tokens (api cfg)))"

text \<open>\<^verbatim>\<open>str.strip()\<close>: leading and trailing whitespace removed.\<close>

definition str_strip :: "env \<Rightarrow> string \<Rightarrow> string" where
  "str_strip e s = rev (dropWhile (isspace e) (rev (dropWhile (isspace e) s)))"

text \<open>
  The \<^verbatim>\<open>try\<close> block of \<^verbatim>\<open>_generate_reply\<close> and what follows it: the request is sent;
  an exception is caught, registered as a failure and answered with the fallback reply; a
  reply is registered as a success, stripped, cached for an image and truncated.
\<close>

definition call_model ::
  "env \<Rightarrow> WxAutoBot \<Rightarrow> SessionInfo \<Rightarrow> StoredImage option \<Rightarrow> message list \<Rightarrow> int
     \<Rightarrow> string \<times> WxAutoBot" where
  "call_model e self session image_meta messages response_tokens =
     (let self1 = self\<lparr>llm_requests := llm_requests self @ [messages]\<rparr> in
      case client_send e messages of
        Inl exc \<Rightarrow>
          (fallback_reply (failure (config self1)),
           self1\<lparr>failure_tracker :=
                   register_failure (failure_tracker self1) (session_id session) (now_failure e)\<rparr>)
      | Inr answer \<Rightarrow>
          let self2 = self1\<lparr>failure_tracker :=
                             register_success (failure_tracker self1) (session_id session)\<rparr>;
              stripped = str_strip e answer
          in if stripped = [] then ([], self2)
             else
               let self3 = (case image_meta of
                              None \<Rightarrow> self2
                            | Some im \<Rightarrow>
                                self2\<lparr>vision_cache := (vision_cache self2)(sha256 im \<mapsto> stripped)\<rparr>)
               in (truncate_text_to_tokens stripped response_tokens, self3))"

text \<open>
  \<^verbatim>\<open>_generate_reply\<close> up to the \<^verbatim>\<open>try\<close> block: the fixed reply, the ignored image,
  the exhausted budget and the cached image answer return before any request is built.
\<close>

definition prompt_messages ::
  "env \<Rightarrow> WxAutoBot \<Rightarrow> IncomingMessage \<Rightarrow> SessionInfo \<Rightarrow> message list" where
  "prompt_messages e self msg session =
     (let cfg = config self;
          history = load_history (store self) (scope session) (session_id session);
          history1 = (if message_id msg \<noteq> []
                      then filter (\<lambda>r. hr_message_id r \<noteq> message_id msg) history
                      else history);
          history_messages = history_to_messages history1;
          system_message = \<lparr>role = ''system'',
                            content = Str (prompt_for_scope (persona cfg) (scope session))\<rparr>;
          latest_user = build_latest_message e msg;
          response_tokens = max_output_tokens_of cfg (scope session);
          budget = token_budget (limits cfg) - response_tokens
      in trim_context (limits cfg) [system_message] history_messages latest_user budget)"

definition generate_reply ::
  "env \<Rightarrow> WxAutoBot \<Rightarrow> IncomingMessage \<Rightarrow> SessionInfo \<Rightarrow> StoredImage option
     \<Rightarrow> string \<times> WxAutoBot" where
  "generate_reply e self msg session image_meta =
     (let cfg = config self;
          fixed_reply = fixed_reply_for_scope cfg (scope session)
      in if truthy fixed_reply then (the fixed_reply, self)
         else if msg_type msg = ''image'' \<and> \<not> should_process_image cfg msg then ([], self)
         else
           let response_tokens = max_output_tokens_of cfg (scope session);
               budget = token_budget (limits cfg) - response_tokens
           in if budget \<le> 0 then (fallback_reply (failure cfg), self)
              else (case (case image_meta of
                            None \<Rightarrow> None
                          | Some im \<Rightarrow> vision_cache self (sha256 im)) of
                      Some cached \<Rightarrow> (truncate_text_to_tokens cached response_tokens, self)
                    | None \<Rightarrow>
                        call_model e self session image_meta
                          (prompt_messages e self msg session) response_tokens))"

text \<open>
  \<^verbatim>\<open>handle_message\<close>. The result is the bot afterwards and the exception that left the
  handler, if one did; what was written before the exception stays written.
\<close>

definition save_image_of ::
  "env \<Rightarrow> WxAutoBot \<Rightarrow> IncomingMessage \<Rightarrow> SessionInfo
     \<Rightarrow> (py_exception + StoredImage option) \<times> WxAutoBot" where
  "save_image_of e self msg session =
     (if msg_type msg = ''image'' \<and> truthy (image_bytes msg) \<and> truthy (image_mime msg)
      then let (res, st') = save_image (sha256_hexdigest e) (store self) (scope session)
                              (session_id session) (the (image_bytes msg)) (the (image_mime msg))
                              (Some (message_id msg))
           in (case res of Inl exc \<Rightarrow> Inl exc | Inr im \<Rightarrow> Inr (Some im), self\<lparr>store := st'\<rparr>)
      else (Inr None, self))"

definition reply_stage ::
  "env \<Rightarrow> WxAutoBot \<Rightarrow> IncomingMessage \<Rightarrow> SessionInfo \<Rightarrow> StoredImage option \<Rightarrow> WxAutoBot" where
  "reply_stage e self msg session image_meta =
     (let (cooling, sc) = in_cooldown (session_cooldown self) (session_id session)
                            (now_session_cooldown e);
          self1 = self\<lparr>session_cooldown := sc\<rparr>
      in if cooling then self1
         else
           let (cooling', uc) = in_cooldown (user_cooldown self1) (sender_id msg)
                                  (now_user_cooldown e);
               self2 = self1\<lparr>user_cooldown := uc\<rparr>
           in if cooling' then self2
              else
                let (response_text, self3) = generate_reply e self2 msg session image_meta
                in if response_text \<noteq> []
                   then append_reply e
                          (self3\<lparr>sent_texts := sent_texts self3 @ [(session, response_text)]\<rparr>)
                          session response_text
                   else self3)"

definition handle_message ::
  "env \<Rightarrow> WxAutoBot \<Rightarrow> IncomingMessage \<Rightarrow> WxAutoBot \<times> py_exception option" where
  "handle_message e self msg =
     (if is_self_message (config self) msg then (self, None)
      else
        let (session, self1) = resolve_session_of e self msg;
            unique_key = (if message_id msg \<noteq> [] then message_id msg else hash_content e msg);
            (seen, dd) = seen_recently (dedupe self1) unique_key (now_dedupe e);
            self2 = self1\<lparr>dedupe := dd\<rparr>
        in if seen then (self2, None)
           else if is_blocked (failure_tracker self2) (session_id session) (now_blocked e)
             then (self2, None)
           else
             (case should_trigger e (config self2) msg of
                None \<Rightarrow> (self2, Some ReError)
              | Some should_reply \<Rightarrow>
                  let (saved, self3) = save_image_of e self2 msg session in
                  (case saved of
                     Inl exc \<Rightarrow> (self3, Some exc)
                   | Inr image_meta \<Rightarrow>
                       let self4 = append_history_of self3 msg session image_meta
                       in if \<not> should_reply then (self4, None)
                          else (reply_stage e self4 msg session image_meta, None))))"


section \<open>Predicates and example data used by the statements\<close>

text \<open>The number of text parts of a message; a string content counts as one.\<close>

fun is_text :: "part \<Rightarrow> bool" where
  "is_text (TextPart t) = True"
| "is_text (ImageUrlPart u) = False"

definition text_parts :: "message \<Rightarrow> nat" where
  "text_parts m = (case content m of Str s \<Rightarrow> 1 | Parts items \<Rightarrow> length (filter is_text items))"

fun is_str :: "content \<Rightarrow> bool" where
  "is_str (Str s) = True"
| "is_str (Parts items) = False"

text \<open>A key with a cooldown entry has a failure count at or above the threshold.\<close>

definition ft_inv :: "FailureTracker \<Rightarrow> bool" where
  "ft_inv t =
     (\<forall>k u. cooldowns t k = Some u \<longrightarrow> (\<exists>n. failures t k = Some n \<and> max_failures t \<le> n))"

text \<open>The defaults of \<^verbatim>\<open>config.py\<close>, with ASCII prompts, and a private text message.\<close>

definition example_limits :: LimitsConfig where
  "example_limits =
     \<lparr>token_budget = 4096, min_reserved_output_tokens = 256, max_group_output_tokens = 512,
      max_private_output_tokens = 800, max_single_message_tokens = 2048\<rparr>"

definition example_config :: BotConfig where
  "example_config =
     \<lparr>persona = \<lparr>global_prompt = ''You are a helpful assistant.'', private_prompt = None,
                 group_prompt = None\<rparr>,
      trigger = \<lparr>private_mode = ''always'', private_keywords = [], private_regex = None,
                 group_mode = ''mention'', group_keywords = []\<rparr>,
      api = \<lparr>max_output_tokens = 800\<rparr>,
      limits = example_limits,
      dedupe_cfg = \<lparr>dc_window_seconds = 60\<rparr>,
      rate_limit = \<lparr>session_cooldown_seconds = 3, user_cooldown_seconds = 2\<rparr>,
      failure = \<lparr>max_consecutive_failures = 3, fc_cooldown_seconds = 60,
                 fallback_reply = ''I cannot reply right now.''\<rparr>,
      vision = \<lparr>enable_private = True, enable_group = True\<rparr>,
      reply = \<lparr>private_fixed_reply = None, group_fixed_reply = None\<rparr>,
      self_user_id = None\<rparr>"



text \<open>\<^verbatim>\<open>str.lower\<close> and \<^verbatim>\<open>str.isspace\<close> as they are on ASCII text.\<close>

definition ascii_lower_char :: "char \<Rightarrow> char" where
  "ascii_lower_char c =
     (let n = (of_char c :: nat) in if 65 \<le> n \<and> n \<le> 90 then char_of (n + 32) else c)"

definition ascii_lower :: "string \<Rightarrow> string" where
  "ascii_lower s = map ascii_lower_char s"

definition ascii_space :: "char \<Rightarrow> bool" where
  "ascii_space c = (let n = (of_char c :: nat) in (9 \<le> n \<and> n \<le> 13) \<or> (28 \<le> n \<and> n \<le> 32))"

text \<open>
  An environment whose model client times out on every request and whose \<^verbatim>\<open>re.search\<close>
  raises on the pattern of one opening parenthesis.
\<close>

definition example_env :: env where
  "example_env =
     \<lparr>sha1_hexdigest = (\<lambda>s. ''0123456789abcdef0123456789abcdef01234567''),
      sha256_hexdigest = (\<lambda>b. ''89abcdef0123456789abcdef0123456789abcdef0123456789abcdef01234567''),
      b64encode = (\<lambda>b. ''AAAA''),
      re_search = (\<lambda>pattern s. if pattern = ''('' then None else Some False),
      lower = ascii_lower, isspace = ascii_space,
      str_float = (\<lambda>x. ''1700000000.0''),
      client_send = (\<lambda>messages. Inl Timeout),
      now_dedupe = 1700000000, now_blocked = 1700000000, now_session_cooldown = 1700000000,
      now_user_cooldown = 1700000000, now_failure = 1700000001,
      now_reply_timestamp = 1700000001, now_reply_id = 1700000001\<rparr>"

definition example_msg :: IncomingMessage where
  "example_msg =
     \<lparr>message_id = ''m1'', timestamp = 1700000000, sender_id = ''u1'', sender_name = ''Alice'',
      msg_content = Some ''hello'', msg_type = ''text'', is_group = False, group_id = None,
      group_name = None, is_at = False, conversation_id = None, image_bytes = None,
      image_name = None, image_mime = None\<rparr>"

text \<open>A base directory that exists and is empty, on a system that accepts every name.\<close>

definition example_fs :: filesystem where
  "example_fs = \<lparr>dirs = {[''srv''], [''srv'', ''bot'']}, files = Map.empty, accepts = (\<lambda>name. True)\<rparr>"

definition example_store :: SessionStore where
  "example_store = SessionStore_init [''srv'', ''bot''] example_fs"

text \<open>A store where the image of message \<open>m1\<close> of session \<open>s1\<close> is on disk with content \<open>old\<close>.\<close>

definition stored_fs :: filesystem where
  "stored_fs =
     \<lparr>dirs = {[''srv''], [''srv'', ''bot''], [''srv'', ''bot'', ''private''],
              [''srv'', ''bot'', ''private'', ''s1''],
              [''srv'', ''bot'', ''private'', ''s1'', ''images'']},
      files = [[''srv'', ''bot'', ''private'', ''s1'', ''images'', ''m1.png''] \<mapsto> ''old''],
      accepts = (\<lambda>name. True)\<rparr>"

definition stored_store :: SessionStore where
  "stored_store = SessionStore_init [''srv'', ''bot''] stored_fs"


text \<open>An image message whose id has a slash.\<close>

definition example_image_msg :: IncomingMessage where
  "example_image_msg =
     example_msg\<lparr>message_id := ''a/b'', msg_type := ''image'', image_bytes := Some ''new'',
                 image_mime := Some ''image/png''\<rparr>"

definition example_session :: SessionInfo where
  "example_session =
     \<lparr>scope = ''private'', session_id = ''0123456789abcdef'', session_key = ''u1'',
      display_name = Some ''Alice''\<rparr>"

section \<open>Verification\<close>

subsection \<open>The dedupe cache\<close>

lemma seen_recently_window [simp]: "window_seconds (snd (seen_recently d key now)) = window_seconds d"
  by (simp add: seen_recently_def Let_def)

lemma seen_recently_keep:
  assumes "cache d key = Some ts" and "\<not> now - ts > of_int (window_seconds d)"
  shows "cache (snd (seen_recently d k' now)) key = Some ts"
    and "k' = key \<Longrightarrow> fst (seen_recently d k' now)"
  using assms by (auto simp: seen_recently_def drop_expired_def Let_def)

lemma seen_recently_False_records:
  "\<not> fst (seen_recently d key now) \<Longrightarrow> cache (snd (seen_recently d key now)) key = Some now"
  by (auto simp: seen_recently_def Let_def split: if_splits)

lemma seen_run_Cons:
  "seen_run d ((k, t) # calls) =
     fst (seen_recently d k t) # seen_run (snd (seen_recently d k t)) calls"
  by (simp add: split_beta)

text \<open>
  From here on a run is unfolded one call at a time through \<open>seen_run_Cons\<close>.
\<close>

declare seen_run.simps(2) [simp del]

lemma seen_run_after_entry:
  "cache d key = Some ts \<Longrightarrow> sorted (map snd calls) \<Longrightarrow> j < length calls \<Longrightarrow>
   fst (calls ! j) = key \<Longrightarrow> \<not> seen_run d calls ! j \<Longrightarrow>
   snd (calls ! j) - ts > of_int (window_seconds d)"
proof (induction calls arbitrary: d j)
  case Nil
  then show ?case by simp
next
  case (Cons c calls)
  obtain k' t' where c: "c = (k', t')" by (cases c)
  note prems = Cons.prems[unfolded c seen_run_Cons]
  let ?d' = "snd (seen_recently d k' t')"
  show ?case unfolding c
  proof (cases "t' - ts > of_int (window_seconds d)")
    case True
    have "t' \<le> snd (((k', t') # calls) ! j)"
      using prems(2,3) by (cases j) auto
    with True show "snd (((k', t') # calls) ! j) - ts > of_int (window_seconds d)"
      by linarith
  next
    case False
    note keep = seen_recently_keep[OF prems(1) False]
    show "snd (((k', t') # calls) ! j) - ts > of_int (window_seconds d)"
    proof (cases j)
      case 0
      with prems(4,5) keep(2)[of k'] show ?thesis by simp
    next
      case (Suc j')
      have "snd (calls ! j') - ts > of_int (window_seconds ?d')"
        using prems Suc keep(1)[of k'] by (intro Cons.IH) auto
      then show ?thesis by (simp add: Suc)
    qed
  qed
qed

lemma seen_run_once_per_window:
  "sorted (map snd calls) \<Longrightarrow> i < j \<Longrightarrow> j < length calls \<Longrightarrow>
   fst (calls ! i) = fst (calls ! j) \<Longrightarrow> \<not> seen_run d calls ! i \<Longrightarrow> \<not> seen_run d calls ! j \<Longrightarrow>
   snd (calls ! j) - snd (calls ! i) > of_int (window_seconds d)"
proof (induction calls arbitrary: d i j)
  case Nil
  then show ?case by simp
next
  case (Cons c calls)
  obtain k' t' where c: "c = (k', t')" by (cases c)
  note prems = Cons.prems[unfolded c seen_run_Cons]
  let ?d' = "snd (seen_recently d k' t')"
  obtain j' where j: "j = Suc j'" using prems(2) by (cases j) auto
  show ?case unfolding c
  proof (cases i)
    case 0
    have "cache ?d' k' = Some t'"
      using prems(5) by (intro seen_recently_False_records) (simp add: 0)
    then have "snd (calls ! j') - t' > of_int (window_seconds ?d')"
      using prems by (intro seen_run_after_entry) (auto simp: 0 j)
    then show "snd (((k', t') # calls) ! j) - snd (((k', t') # calls) ! i) > of_int (window_seconds d)"
      by (simp add: 0 j)
  next
    case (Suc i')
    have "snd (calls ! j') - snd (calls ! i') > of_int (window_seconds ?d')"
      using prems by (intro Cons.IH) (auto simp: Suc j)
    then show "snd (((k', t') # calls) ! j) - snd (((k', t') # calls) ! i) > of_int (window_seconds d)"
      by (simp add: Suc j)
  qed
qed

text \<open>
  Claim C4. For every key of the dedupe cache: a call for a key that has no entry answers
  false and records the key with the current time; a call at most a window after the
  recorded time answers true and leaves the key's entry as it is; a call more than a window
  after the recorded time finds the entry dropped at lookup, answers false and records the
  key anew. Over any run of calls whose clock values do not decrease, two false answers for
  the same key are more than a window apart.
\<close>

theorem seen_recently_once_per_window:
  "(cache d key = None \<longrightarrow>
      fst (seen_recently d key now) = False \<and> cache (snd (seen_recently d key now)) key = Some now)
   \<and> (\<forall>ts. cache d key = Some ts \<and> now - ts \<le> of_int (window_seconds d) \<longrightarrow>
      fst (seen_recently d key now) = True \<and> cache (snd (seen_recently d key now)) key = Some ts)
   \<and> (\<forall>ts. cache d key = Some ts \<and> now - ts > of_int (window_seconds d) \<longrightarrow>
      drop_expired (window_seconds d) now (cache d) key = None \<and>
      fst (seen_recently d key now) = False \<and> cache (snd (seen_recently d key now)) key = Some now)
   \<and> (\<forall>i j. sorted (map snd calls) \<and> i < j \<and> j < length calls \<and> fst (calls ! i) = fst (calls ! j)
        \<and> \<not> seen_run d calls ! i \<and> \<not> seen_run d calls ! j \<longrightarrow>
        snd (calls ! j) - snd (calls ! i) > of_int (window_seconds d))"
proof (intro conjI allI impI)
  fix i j
  assume "sorted (map snd calls) \<and> i < j \<and> j < length calls \<and> fst (calls ! i) = fst (calls ! j)
        \<and> \<not> seen_run d calls ! i \<and> \<not> seen_run d calls ! j"
  then show "snd (calls ! j) - snd (calls ! i) > of_int (window_seconds d)"
    using seen_run_once_per_window by blast
qed (auto simp: seen_recently_def drop_expired_def Let_def)

text \<open>
  The statement of C4 at a cache holding key \<open>a\<close> since time 100, window 60, and at the run
  of three calls for \<open>a\<close> at times 100, 130 and 161 on an empty cache.
\<close>

theorem seen_recently_once_per_window_witness:
  "fst (seen_recently \<lparr>window_seconds = 60, cache = [''a'' \<mapsto> 100]\<rparr> ''b'' 110) = False
   \<and> fst (seen_recently \<lparr>window_seconds = 60, cache = [''a'' \<mapsto> 100]\<rparr> ''a'' 160) = True
   \<and> cache (snd (seen_recently \<lparr>window_seconds = 60, cache = [''a'' \<mapsto> 100]\<rparr> ''a'' 160)) ''a'' = Some 100
   \<and> fst (seen_recently \<lparr>window_seconds = 60, cache = [''a'' \<mapsto> 100]\<rparr> ''a'' 161) = False
   \<and> seen_run (DedupeCache_init 60) [(''a'', 100), (''a'', 130), (''a'', 161)] = [False, True, False]
   \<and> (161::real) - 100 > of_int (window_seconds (DedupeCache_init 60))"
proof -
  let ?d = "\<lparr>window_seconds = 60, cache = [''a'' \<mapsto> 100]\<rparr>"
  let ?calls = "[(''a'', 100), (''a'', 130), (''a'', 161 :: real)]"
  have run: "seen_run (DedupeCache_init 60) ?calls = [False, True, False]"
    by (simp add: seen_run_Cons seen_recently_def drop_expired_def DedupeCache_init_def Let_def)
  have "0 < (2::nat) \<and> 2 < length ?calls" by simp
  with run seen_recently_once_per_window [of ?d "''b''" 110] seen_recently_once_per_window [of ?d "''a''" 160] seen_recently_once_per_window [of ?d "''a''" 161]
    seen_recently_once_per_window [of "DedupeCache_init 60" "''a''" 100 ?calls, THEN conjunct2, THEN conjunct2, THEN conjunct2, rule_format, of 0 2]
  show ?thesis by simp
qed

subsection \<open>The cooldown manager\<close>

text \<open>
  Claim C5. For every key of the cooldown manager: a call inside the window since the stored
  time answers true and returns the manager unchanged; a call outside the window answers
  false and stores the current time for that key; no call changes the entry of another key,
  and the entry of the key changes only together with a false answer.
\<close>

theorem in_cooldown_frame:
  "(now - get_or (last_hit m) key 0 < of_int (cm_cooldown_seconds m) \<longrightarrow>
      in_cooldown m key now = (True, m))
   \<and> (\<not> now - get_or (last_hit m) key 0 < of_int (cm_cooldown_seconds m) \<longrightarrow>
      in_cooldown m key now = (False, m\<lparr>last_hit := (last_hit m)(key \<mapsto> now)\<rparr>))
   \<and> (\<forall>k. k \<noteq> key \<longrightarrow> last_hit (snd (in_cooldown m key now)) k = last_hit m k)
   \<and> (last_hit (snd (in_cooldown m key now)) key \<noteq> last_hit m key \<longrightarrow>
        fst (in_cooldown m key now) = False \<and> last_hit (snd (in_cooldown m key now)) key = Some now)"
  by (auto simp: in_cooldown_def)

text \<open>
  The statement of C5 at a manager with a window of 3 holding key \<open>k\<close> since time 100.
\<close>

theorem in_cooldown_frame_witness:
  "fst (in_cooldown \<lparr>cm_cooldown_seconds = 3, last_hit = [''k'' \<mapsto> 100]\<rparr> ''k'' 102) = True
   \<and> last_hit (snd (in_cooldown \<lparr>cm_cooldown_seconds = 3, last_hit = [''k'' \<mapsto> 100]\<rparr> ''k'' 102)) ''k'' = Some 100
   \<and> fst (in_cooldown \<lparr>cm_cooldown_seconds = 3, last_hit = [''k'' \<mapsto> 100]\<rparr> ''k'' 103) = False
   \<and> last_hit (snd (in_cooldown \<lparr>cm_cooldown_seconds = 3, last_hit = [''k'' \<mapsto> 100]\<rparr> ''k'' 103)) ''k'' = Some 103
   \<and> last_hit (snd (in_cooldown \<lparr>cm_cooldown_seconds = 3, last_hit = [''k'' \<mapsto> 100]\<rparr> ''j'' 103)) ''k'' = Some 100"
proof -
  let ?m = "\<lparr>cm_cooldown_seconds = 3, last_hit = [''k'' \<mapsto> 100 :: real]\<rparr>"
  have h1: "(102::real) - get_or (last_hit ?m) ''k'' 0 < of_int (cm_cooldown_seconds ?m)"
    by (simp add: get_or_def)
  have h2: "\<not> (103::real) - get_or (last_hit ?m) ''k'' 0 < of_int (cm_cooldown_seconds ?m)"
    by (simp add: get_or_def)
  have h3: "''j'' \<noteq> ''k''" by simp
  note a = in_cooldown_frame [of 102 ?m "''k''", THEN conjunct1, rule_format, OF h1]
  note b = in_cooldown_frame [of 103 ?m "''k''", THEN conjunct2, THEN conjunct1, rule_format, OF h2]
  note c = in_cooldown_frame [of 103 ?m "''j''" , THEN conjunct2, THEN conjunct2, THEN conjunct1, rule_format, OF h3[symmetric]]
  show ?thesis
    unfolding a b c by simp
qed

subsection \<open>The failure tracker\<close>

lemma ft_inv_init: "ft_inv (FailureTracker_init mf cd)"
  by (simp add: ft_inv_def FailureTracker_init_def)

lemma ft_inv_apply: "ft_inv t \<Longrightarrow> ft_inv (ft_apply c t)"
  by (cases c)
    (auto simp: ft_inv_def register_failure_def register_success_def get_or_def Let_def
          split: option.splits)

lemma ft_apply_params [simp]:
  "max_failures (ft_apply c t) = max_failures t"
  "ft_cooldown_seconds (ft_apply c t) = ft_cooldown_seconds t"
  by (cases c; simp add: register_failure_def register_success_def Let_def)+

lemma ft_fold_inv: "ft_inv t \<Longrightarrow> ft_inv (fold ft_apply calls t)"
  by (induction calls arbitrary: t) (simp_all add: ft_inv_apply)

lemma ft_fold_params [simp]:
  "max_failures (fold ft_apply calls t) = max_failures t"
  "ft_cooldown_seconds (fold ft_apply calls t) = ft_cooldown_seconds t"
  by (induction calls arbitrary: t) simp_all

lemma ft_run_inv: "ft_inv (ft_run mf cd calls)"
  by (simp add: ft_run_def ft_fold_inv ft_inv_init)

lemma ft_run_params [simp]:
  "max_failures (ft_run mf cd calls) = mf"
  "ft_cooldown_seconds (ft_run mf cd calls) = cd"
  by (simp_all add: ft_run_def FailureTracker_init_def)

text \<open>
  Claim C3. Let a tracker be reached from a fresh one by failures and successes, let the key
  have a \<open>blocked_until\<close> entry and let that time have passed. Then the key is not
  blocked, its failure count is still at or above the threshold, and one more failure
  raises the count by one and sets \<open>blocked_until\<close> to the time of that failure plus the
  cooldown, which blocks the key at once when the cooldown is positive. A success, on any
  tracker, sets the count to zero, removes \<open>blocked_until\<close> and leaves the key unblocked.
\<close>

theorem failure_tracker_expiry_keeps_counter:
  "(t = ft_run mf cd calls \<and> cooldowns t key = Some until \<and> until \<le> now \<longrightarrow>
      \<not> is_blocked t key now
      \<and> (\<exists>n. failures t key = Some n \<and> mf \<le> n
             \<and> failures (register_failure t key now') key = Some (n + 1))
      \<and> cooldowns (register_failure t key now') key = Some (now' + of_int cd)
      \<and> (0 < cd \<and> 0 \<le> now' \<longrightarrow> is_blocked (register_failure t key now') key now'))
   \<and> failures (register_success s key) key = Some 0
   \<and> cooldowns (register_success s key) key = None
   \<and> \<not> is_blocked (register_success s key) key now2"
proof (intro conjI impI)
  assume a: "t = ft_run mf cd calls \<and> cooldowns t key = Some until \<and> until \<le> now"
  then have inv: "ft_inv t" and mf: "max_failures t = mf" and cd: "ft_cooldown_seconds t = cd"
    by (simp_all add: ft_run_inv)
  from a inv obtain n where n: "failures t key = Some n" "mf \<le> n"
    unfolding ft_inv_def mf by blast
  from a have cool: "cooldowns t key = Some until" and le: "until \<le> now"
    by blast+
  from cool le show "\<not> is_blocked t key now"
    by (simp add: is_blocked_def get_or_def)
  from n show "\<exists>n. failures t key = Some n \<and> mf \<le> n
             \<and> failures (register_failure t key now') key = Some (n + 1)"
    by (simp add: register_failure_def get_or_def Let_def)
  from n mf cd show c: "cooldowns (register_failure t key now') key = Some (now' + of_int cd)"
    by (simp add: register_failure_def get_or_def Let_def)
  show "is_blocked (register_failure t key now') key now'" if "0 < cd \<and> 0 \<le> now'"
    using that c by (simp add: is_blocked_def get_or_def)
qed (simp_all add: register_success_def is_blocked_def get_or_def)

text \<open>
  The statement of C3 after three failures of key \<open>s\<close> at times 100 to 102 with threshold 3
  and cooldown 60: not blocked at 200, blocked again by the one failure at 201.
\<close>

theorem failure_tracker_expiry_keeps_counter_witness:
  "cooldowns (ft_run 3 60 [Failure ''s'' 100, Failure ''s'' 101, Failure ''s'' 102]) ''s'' = Some 162
   \<and> \<not> is_blocked (ft_run 3 60 [Failure ''s'' 100, Failure ''s'' 101, Failure ''s'' 102]) ''s'' 200
   \<and> failures (register_failure (ft_run 3 60 [Failure ''s'' 100, Failure ''s'' 101, Failure ''s'' 102]) ''s'' 201) ''s'' = Some 4
   \<and> is_blocked (register_failure (ft_run 3 60 [Failure ''s'' 100, Failure ''s'' 101, Failure ''s'' 102]) ''s'' 201) ''s'' 201"
proof -
  let ?t = "ft_run 3 60 [Failure ''s'' 100, Failure ''s'' 101, Failure ''s'' 102]"
  have c: "cooldowns ?t ''s'' = Some 162"
    by (simp add: ft_run_def FailureTracker_init_def register_failure_def get_or_def Let_def)
  have f: "failures ?t ''s'' = Some 3"
    by (simp add: ft_run_def FailureTracker_init_def register_failure_def get_or_def Let_def)
  from failure_tracker_expiry_keeps_counter [of ?t 3 60 "[Failure ''s'' 100, Failure ''s'' 101, Failure ''s'' 102]" "''s''" 162 200 201] c f
  show ?thesis by simp
qed

subsection \<open>Token estimates and the context assembler\<close>

lemma ceiling_quarter: "\<lceil>real n / 4\<rceil> = (int n + 3) div 4"
proof -
  have "real n / 4 = real_of_int (int n) / real_of_int 4" by simp
  then have "\<lceil>real n / 4\<rceil> = - (- int n div 4)"
    by (simp only: ceiling_divide_eq_div)
  then show ?thesis by linarith
qed

lemma estimate_tokens_div: "estimate_tokens t = (int (length t) + 3) div 4"
proof (cases "t = []")
  case True
  then show ?thesis by (simp add: estimate_tokens_def)
next
  case False
  then have "0 < length t" by simp
  then have "1 \<le> (int (length t) + 3) div 4" by linarith
  with False show ?thesis
    unfolding estimate_tokens_def ceiling_quarter by simp
qed

lemma estimate_tokens_nonneg: "0 \<le> estimate_tokens t"
  by (simp add: estimate_tokens_div)

lemma truncate_text_bound:
  assumes "0 < k" shows "estimate_tokens (truncate_text_to_tokens t k) \<le> k"
proof (cases "estimate_tokens t \<le> k")
  case True
  then show ?thesis by (simp add: truncate_text_to_tokens_def)
next
  case False
  have "int (length (take (nat (k * 4)) t)) \<le> k * 4" using assms by simp
  then have "estimate_tokens (take (nat (k * 4)) t) \<le> k"
    unfolding estimate_tokens_div by linarith
  with False assms show ?thesis
    by (simp add: truncate_text_to_tokens_def slice_to_def Let_def)
qed

lemma no_text_parts_tokens:
  "filter is_text items = [] \<Longrightarrow> sum_list (map part_tokens (map (truncate_part k) items)) = 0"
proof (induction items)
  case Nil
  then show ?case by simp
next
  case (Cons p items)
  then show ?case by (cases p) (simp_all split: if_splits)
qed

lemma single_text_part_bound:
  "length (filter is_text items) \<le> 1 \<Longrightarrow> 0 < k \<Longrightarrow>
   sum_list (map part_tokens (map (truncate_part k) items)) \<le> k"
proof (induction items)
  case Nil
  then show ?case by simp
next
  case (Cons p items)
  show ?case
  proof (cases p)
    case (TextPart t)
    with Cons.prems have "filter is_text items = []" by simp
    then have "sum_list (map part_tokens (map (truncate_part k) items)) = 0"
      by (rule no_text_parts_tokens)
    with TextPart Cons.prems(2) show ?thesis
      by (simp add: truncate_text_bound)
  next
    case (ImageUrlPart u)
    with Cons show ?thesis by simp
  qed
qed

lemma filter_is_text_truncate [simp]:
  "filter is_text (map (truncate_part k) items) = map (truncate_part k) (filter is_text items)"
proof (induction items)
  case Nil
  then show ?case by simp
next
  case (Cons p items)
  then show ?case by (cases p) simp_all
qed

lemma truncate_latest_single:
  "\<exists>m'. truncate_latest lc [m] b = [m'] \<and> text_parts m' = text_parts m"
  by (cases "content m") (simp_all add: truncate_latest_def text_parts_def Let_def)

lemma truncate_latest_bound:
  assumes "text_parts m \<le> 1" and "0 < k"
  shows "estimate_messages_tokens (truncate_latest lc [m] (Some k)) \<le> k"
proof (cases "content m")
  case (Str s)
  with assms(2) show ?thesis
    by (simp add: truncate_latest_def estimate_messages_tokens_def estimate_message_tokens_def
        truncate_text_bound)
next
  case (Parts items)
  with assms have "sum_list (map part_tokens (map (truncate_part k) items)) \<le> k"
    by (intro single_text_part_bound) (simp_all add: text_parts_def)
  with Parts assms(2) show ?thesis
    by (simp add: truncate_latest_def estimate_messages_tokens_def estimate_message_tokens_def)
qed

lemma latest_after_cap_single:
  "\<exists>m'. latest_after_cap lc [m] = [m'] \<and> text_parts m' = text_parts m"
  using truncate_latest_single [of lc m None] by (simp add: latest_after_cap_def)

lemma latest_after_budget_single:
  "\<exists>m'. latest_after_budget lc sys [m] budget = [m']"
proof -
  obtain m1 where m1: "latest_after_cap lc [m] = [m1]"
    using latest_after_cap_single by blast
  then show ?thesis
    using truncate_latest_single [of lc m1] by (auto simp: latest_after_budget_def Let_def)
qed

lemma latest_after_budget_bound:
  assumes "estimate_messages_tokens sys < budget" and "text_parts m \<le> 1"
  shows "estimate_messages_tokens sys
           + estimate_messages_tokens (latest_after_budget lc sys [m] budget) \<le> budget"
proof -
  obtain m1 where m1: "latest_after_cap lc [m] = [m1]" "text_parts m1 = text_parts m"
    using latest_after_cap_single by blast
  let ?N = "estimate_messages_tokens sys"
  show ?thesis
  proof (cases "?N + estimate_messages_tokens [m1] > budget")
    case True
    have "estimate_messages_tokens (truncate_latest lc [m1] (Some (budget - ?N))) \<le> budget - ?N"
      using assms m1 by (intro truncate_latest_bound) simp_all
    with True m1 show ?thesis by (simp add: latest_after_budget_def Let_def)
  next
    case False
    with m1 show ?thesis by (simp add: latest_after_budget_def Let_def)
  qed
qed

lemma estimate_tokens_content_nonneg: "0 \<le> estimate_tokens_content c"
  by (cases c) (simp_all add: estimate_tokens_content_def estimate_tokens_nonneg)

lemma take_fitting_sum:
  "0 \<le> r \<Longrightarrow> sum_list (map (\<lambda>h. estimate_tokens_content (content h)) (take_fitting r hs)) \<le> r"
proof (induction hs arbitrary: r)
  case Nil
  then show ?case by simp
next
  case (Cons h hs)
  let ?t = "estimate_tokens_content (content h)"
  show ?case
  proof (cases "?t \<le> r")
    case True
    then have "sum_list (map (\<lambda>h. estimate_tokens_content (content h)) (take_fitting (r - ?t) hs))
                 \<le> r - ?t"
      by (intro Cons.IH) simp
    with True show ?thesis by (simp add: Let_def)
  next
    case False
    with Cons.prems show ?thesis by (simp add: Let_def)
  qed
qed

lemma take_fitting_prefix: "prefix (take_fitting r hs) hs"
  by (induction hs arbitrary: r) (simp_all add: Let_def)

lemma trimmed_history_suffix: "suffix (trimmed_history r hs) hs"
  using take_fitting_prefix [of r "rev hs"] by (simp add: trimmed_history_def suffix_to_prefix)

lemma str_message_tokens:
  "is_str (content h) \<Longrightarrow> estimate_message_tokens h = estimate_tokens_content (content h)"
  by (cases "content h") (simp_all add: estimate_message_tokens_def estimate_tokens_content_def)

lemma trimmed_history_sum:
  assumes "0 \<le> r" and "\<forall>h\<in>set hs. is_str (content h)"
  shows "estimate_messages_tokens (trimmed_history r hs) \<le> r"
proof -
  have sub: "set (take_fitting r (rev hs)) \<subseteq> set hs"
    using set_mono_prefix [OF take_fitting_prefix [of r "rev hs"]] by simp
  have "estimate_messages_tokens (trimmed_history r hs)
          = sum_list (map estimate_message_tokens (take_fitting r (rev hs)))"
    by (simp add: estimate_messages_tokens_def trimmed_history_def rev_map [symmetric])
  also have "\<dots> = sum_list (map (\<lambda>h. estimate_tokens_content (content h)) (take_fitting r (rev hs)))"
    using sub assms(2) by (intro arg_cong [where f = sum_list] map_cong) (auto simp: str_message_tokens)
  also have "\<dots> \<le> r" using assms(1) by (rule take_fitting_sum)
  finally show ?thesis .
qed

lemma estimate_messages_tokens_append [simp]:
  "estimate_messages_tokens (xs @ ys) = estimate_messages_tokens xs + estimate_messages_tokens ys"
  by (simp add: estimate_messages_tokens_def)

lemma history_to_messages_is_str: "\<forall>h\<in>set (history_to_messages hs). is_str (content h)"
  by (simp add: history_to_messages_def record_to_message_def Let_def)

lemma build_latest_message_single:
  "\<exists>m. build_latest_message e msg = [m] \<and> text_parts m \<le> 1"
  by (simp add: build_latest_message_def text_parts_def image_to_message_def)

text \<open>
  The equations that evaluate the context assembler on concrete messages.
\<close>

lemmas trim_eval = trim_context_def latest_after_budget_def latest_after_cap_def truncate_latest_def
  trimmed_history_def estimate_messages_tokens_def estimate_message_tokens_def
  estimate_tokens_content_def estimate_tokens_div truncate_text_to_tokens_def slice_to_def
  example_limits_def Let_def

text \<open>
  Claim C1, as amended. For every input the prompt is the system messages, then a suffix of
  the history in its original order, then the new messages. When the estimated tokens of
  the system messages are strictly below the budget, the new message is one message with at
  most one text part and the history contents are strings (what \<open>build_latest_message\<close>
  and \<open>history_to_messages\<close> produce), the estimated tokens of the prompt do not exceed
  the budget.
\<close>

theorem trim_context_within_budget:
  "(\<exists>kept latest'. trim_context lc sys hist latest budget = sys @ kept @ latest'
        \<and> suffix kept hist \<and> length latest' = length latest)
   \<and> (estimate_messages_tokens sys < budget \<and> latest = [m] \<and> text_parts m \<le> 1
        \<and> (\<forall>h\<in>set hist. is_str (content h))
      \<longrightarrow> estimate_messages_tokens (trim_context lc sys hist latest budget) \<le> budget)"
proof (intro conjI impI)
  have "length (truncate_latest lc xs b) = length xs" for xs b
    by (cases xs; cases "content (hd xs)") (simp_all add: truncate_latest_def Let_def)
  then have "length (latest_after_budget lc sys latest budget) = length latest"
    by (simp add: latest_after_budget_def latest_after_cap_def Let_def)
  then show "\<exists>kept latest'. trim_context lc sys hist latest budget = sys @ kept @ latest'
        \<and> suffix kept hist \<and> length latest' = length latest"
    unfolding trim_context_def Let_def using trimmed_history_suffix by blast
next
  assume a: "estimate_messages_tokens sys < budget \<and> latest = [m] \<and> text_parts m \<le> 1
        \<and> (\<forall>h\<in>set hist. is_str (content h))"
  let ?N = "estimate_messages_tokens sys"
  let ?l = "latest_after_budget lc sys [m] budget"
  have b: "?N + estimate_messages_tokens ?l \<le> budget"
    using a by (intro latest_after_budget_bound) simp_all
  then have "estimate_messages_tokens (trimmed_history (budget - (?N + estimate_messages_tokens ?l)) hist)
        \<le> budget - (?N + estimate_messages_tokens ?l)"
    using a by (intro trimmed_history_sum) simp_all
  with a show "estimate_messages_tokens (trim_context lc sys hist latest budget) \<le> budget"
    by (simp add: trim_context_def Let_def)
qed

text \<open>
  The statement of C1 at a system message of 2 tokens, budget 8, three history messages of
  2, 3 and 1 tokens and a new message of 2 tokens: the two most recent history messages
  are kept.
\<close>

theorem trim_context_within_budget_witness:
  "estimate_messages_tokens [\<lparr>role = ''system'', content = Str ''abcdefgh''\<rparr>] < 8
   \<and> trim_context example_limits [\<lparr>role = ''system'', content = Str ''abcdefgh''\<rparr>]
        [\<lparr>role = ''user'', content = Str ''abcdefgh''\<rparr>,
         \<lparr>role = ''assistant'', content = Str ''abcdefghi''\<rparr>,
         \<lparr>role = ''user'', content = Str ''abcd''\<rparr>]
        [\<lparr>role = ''user'', content = Str ''hello''\<rparr>] 8
      = [\<lparr>role = ''system'', content = Str ''abcdefgh''\<rparr>,
         \<lparr>role = ''assistant'', content = Str ''abcdefghi''\<rparr>,
         \<lparr>role = ''user'', content = Str ''abcd''\<rparr>,
         \<lparr>role = ''user'', content = Str ''hello''\<rparr>]
   \<and> estimate_messages_tokens
        (trim_context example_limits [\<lparr>role = ''system'', content = Str ''abcdefgh''\<rparr>]
          [\<lparr>role = ''user'', content = Str ''abcdefgh''\<rparr>,
           \<lparr>role = ''assistant'', content = Str ''abcdefghi''\<rparr>,
           \<lparr>role = ''user'', content = Str ''abcd''\<rparr>]
          [\<lparr>role = ''user'', content = Str ''hello''\<rparr>] 8) \<le> 8"
proof -
  let ?sys = "[\<lparr>role = ''system'', content = Str ''abcdefgh''\<rparr>]"
  let ?hist = "[\<lparr>role = ''user'', content = Str ''abcdefgh''\<rparr>,
         \<lparr>role = ''assistant'', content = Str ''abcdefghi''\<rparr>,
         \<lparr>role = ''user'', content = Str ''abcd''\<rparr>]"
  let ?m = "\<lparr>role = ''user'', content = Str ''hello''\<rparr>"
  have h1: "estimate_messages_tokens ?sys < 8"
    by (simp add: estimate_messages_tokens_def estimate_message_tokens_def estimate_tokens_div)
  have h2: "text_parts ?m \<le> 1" by (simp add: text_parts_def)
  have h3: "\<forall>h\<in>set ?hist. is_str (content h)" by simp
  have e: "trim_context example_limits ?sys ?hist [?m] 8 = ?sys @ drop 1 ?hist @ [?m]"
    by (simp add: trim_eval)
  from trim_context_within_budget [of example_limits ?sys ?hist "[?m]" 8 ?m] h1 h2 h3
  have "estimate_messages_tokens (trim_context example_limits ?sys ?hist [?m] 8) \<le> 8"
    by blast
  with h1 e show ?thesis by simp
qed

text \<open>
  C1 as first stated fails: with a positive budget of 1 and a system message of 2 tokens, the
  prompt is over the budget whatever is done to the new message.
\<close>

theorem trim_context_over_budget_counterexample:
  "(0::int) < 1 \<and>
   \<not> estimate_messages_tokens
        (trim_context example_limits [\<lparr>role = ''system'', content = Str ''abcdefgh''\<rparr>] []
           [\<lparr>role = ''user'', content = Str ''hello''\<rparr>] 1) \<le> 1"
  by (simp add: trim_eval)

text \<open>
  When the system message takes the whole budget, the second truncation is asked for zero
  tokens, \<open>truncate_latest\<close> reads zero as no budget and cuts at the single-message cap:
  the new message stays whole.
\<close>

lemma trim_context_zero_room_example:
  "trim_context example_limits [\<lparr>role = ''system'', content = Str ''abcd''\<rparr>] []
           [\<lparr>role = ''user'', content = Str ''hello''\<rparr>] 1
   = [\<lparr>role = ''system'', content = Str ''abcd''\<rparr>, \<lparr>role = ''user'', content = Str ''hello''\<rparr>]"
  by (simp add: trim_eval)

subsection \<open>The session store\<close>

lemma get_or_create_known:
  "sess (scope' @ '':'' @ key) = Some ent \<Longrightarrow>
   get_or_create H sess scope' key display = (entry_id ent, sess)"
  by (simp add: get_or_create_def)

lemma get_or_create_new:
  "sess (scope' @ '':'' @ key) = None \<Longrightarrow>
   fst (get_or_create H sess scope' key display) = take 16 (H (scope' @ '':'' @ key))"
  by (simp add: get_or_create_def Let_def)

text \<open>
  Resolving a session a second time returns the same id and leaves the index as the first
  call left it, whatever display name the second call carries.
\<close>

lemma get_or_create_idempotent:
  "get_or_create H (snd (get_or_create H sess scope' key display)) scope' key display'
     = get_or_create H sess scope' key display"
  by (cases "sess (scope' @ '':'' @ key)") (simp_all add: get_or_create_def Let_def)

lemma session_keys_differ: "''private'' @ '':'' @ key \<noteq> ''group'' @ '':'' @ key"
  by simp

lemma resolve_session_idempotent:
  "resolve_session H (snd (resolve_session H st scope' key display)) scope' key display'
     = resolve_session H st scope' key display"
  by (cases "sessions st (scope' @ '':'' @ key)")
     (simp_all add: resolve_session_def get_or_create_def Let_def)

text \<open>
  For a key new to both scopes the two ids are the first 16 characters of the hashes of
  \<open>private:key\<close> and of \<open>group:key\<close>; they differ exactly when these prefixes differ.
\<close>

lemma resolve_session_fresh_scopes:
  assumes "sessions st (''private'' @ '':'' @ key) = None"
    and "sessions st (''group'' @ '':'' @ key) = None"
  shows "fst (resolve_session H st ''private'' key display)
           = take 16 (H (''private'' @ '':'' @ key))"
    and "fst (resolve_session H (snd (resolve_session H st ''private'' key display))
                ''group'' key display')
           = take 16 (H (''group'' @ '':'' @ key))"
  using assms by (simp_all add: resolve_session_def get_or_create_def Let_def)

subsection \<open>The file system\<close>

text \<open>
  Making directories changes no file, creates nothing it finds present and, once it has
  succeeded, succeeds again without a change; what exists before a directory is made or a
  file is written exists afterwards.
\<close>

lemma walk_files [simp]: "walk (fs\<lparr>files := F\<rparr>) cur p = walk fs cur p"
  by (induction p arbitrary: cur) (simp_all add: is_dir_def)

lemma locate_files [simp]: "locate (fs\<lparr>files := F\<rparr>) p = locate fs p"
  by (simp add: locate_def)

lemma walk_mono:
  "walk fs cur p = Some loc \<Longrightarrow> dirs fs \<subseteq> dirs fs' \<Longrightarrow> walk fs' cur p = Some loc"
proof (induction p arbitrary: cur)
  case Nil
  then show ?case by simp
next
  case (Cons c cs)
  from Cons.prems(1) have d: "is_dir fs (enter cur c)" and w: "walk fs (enter cur c) cs = Some loc"
    by (simp_all split: if_splits)
  from d Cons.prems(2) have "is_dir fs' (enter cur c)" by (auto simp: is_dir_def)
  with Cons.IH [OF w Cons.prems(2)] show ?case by simp
qed

lemma walk_append:
  "walk fs cur (p @ q) = (case walk fs cur p of None \<Rightarrow> None | Some loc \<Rightarrow> walk fs loc q)"
  by (induction p arbitrary: cur) simp_all

lemma mkdir_walk_frame:
  "mkdir_walk fs cur p = (ok, fs') \<Longrightarrow>
   dirs fs \<subseteq> dirs fs' \<and> files fs' = files fs \<and> accepts fs' = accepts fs"
proof (induction p arbitrary: fs cur)
  case Nil
  then show ?case by simp
next
  case (Cons c cs)
  show ?case
  proof (cases "is_dir fs (enter cur c)")
    case True
    with Cons.prems have "mkdir_walk fs (enter cur c) cs = (ok, fs')" by simp
    then show ?thesis by (rule Cons.IH)
  next
    case False
    show ?thesis
    proof (cases "c = ''..'' \<or> files fs (enter cur c) \<noteq> None \<or> \<not> accepts fs c")
      case True
      with False Cons.prems show ?thesis by auto
    next
      case stop: False
      let ?fs = "fs\<lparr>dirs := insert (enter cur c) (dirs fs)\<rparr>"
      from False stop Cons.prems have "mkdir_walk ?fs (enter cur c) cs = (ok, fs')" by simp
      from Cons.IH [OF this] show ?thesis by auto
    qed
  qed
qed


lemma walk_mkdir_noop:
  "walk fs cur p = Some loc \<Longrightarrow> mkdir_walk fs cur p = (True, fs)"
proof (induction p arbitrary: cur)
  case Nil
  then show ?case by simp
next
  case (Cons c cs)
  from Cons.prems have d: "is_dir fs (enter cur c)" and w: "walk fs (enter cur c) cs = Some loc"
    by (simp_all split: if_splits)
  from Cons.IH [OF w] d show ?case by simp
qed

lemma has_nul_append [simp]: "has_nul (p @ q) = (has_nul p \<or> has_nul q)"
  by (simp add: has_nul_def)

lemma fs_mkdir_frame:
  "fs_mkdir fs p = (ok, fs') \<Longrightarrow>
   dirs fs \<subseteq> dirs fs' \<and> files fs' = files fs \<and> accepts fs' = accepts fs"
  using mkdir_walk_frame [of fs "[]" p ok fs'] by (auto simp: fs_mkdir_def split: if_splits)


lemma fs_exists_mono:
  assumes "fs_exists fs p" and "dirs fs \<subseteq> dirs fs'" and "files fs' = files fs"
  shows "fs_exists fs' p"
proof -
  from assms(1) obtain loc where n: "\<not> has_nul p" and l: "locate fs p = Some loc"
    and e: "is_dir fs loc \<or> files fs loc \<noteq> None"
    by (auto simp: fs_exists_def split: option.splits)
  have "locate fs' p = Some loc"
  proof (cases "p = []")
    case True
    with l show ?thesis by (simp add: locate_def)
  next
    case False
    with l obtain cur where w: "walk fs [] (butlast p) = Some cur" and loc: "loc = enter cur (last p)"
      by (auto simp: locate_def split: option.splits)
    from walk_mono [OF w assms(2)] False loc show ?thesis by (simp add: locate_def)
  qed
  moreover from e assms(2,3) have "is_dir fs' loc \<or> files fs' loc \<noteq> None"
    by (auto simp: is_dir_def)
  ultimately show ?thesis using n by (simp add: fs_exists_def)
qed


lemma fs_write_bytes_failed: "fs_write_bytes fs p data = (False, fs') \<Longrightarrow> fs' = fs"
  by (auto simp: fs_write_bytes_def split: if_splits option.splits)


subsection \<open>Saving images\<close>

lemma image_paths_base:
  assumes "base_dir st' = base_dir st"
  shows "images_dir st' sc sid = images_dir st sc sid"
    and "image_target H st' sc sid data mime mid = image_target H st sc sid data mime mid"
    and "image_descriptor H st' sc sid data mime mid = image_descriptor H st sc sid data mime mid"
  using assms by (simp_all add: images_dir_def session_dir_def image_target_def image_descriptor_def)

lemma image_paths_update [simp]:
  "images_dir (st\<lparr>media := fs\<rparr>) sc sid = images_dir st sc sid"
  "images_dir (st\<lparr>write_log := wl\<rparr>) sc sid = images_dir st sc sid"
  "image_target H (st\<lparr>media := fs\<rparr>) sc sid data mime mid = image_target H st sc sid data mime mid"
  "image_target H (st\<lparr>write_log := wl\<rparr>) sc sid data mime mid
     = image_target H st sc sid data mime mid"
  "image_descriptor H (st\<lparr>media := fs\<rparr>) sc sid data mime mid
     = image_descriptor H st sc sid data mime mid"
  "image_descriptor H (st\<lparr>write_log := wl\<rparr>) sc sid data mime mid
     = image_descriptor H st sc sid data mime mid"
  by (simp_all add: images_dir_def session_dir_def image_target_def image_descriptor_def)

lemma save_image_base [simp]:
  "base_dir (snd (save_image H st sc sid data mime mid)) = base_dir st"
  by (simp add: save_image_def Let_def split_beta)

lemma save_image_unfold:
  assumes "fs_mkdir (media st) (images_dir st sc sid) = (made, fs1)"
  shows "save_image H st sc sid data mime mid =
     (if \<not> made then (Inl FileError, st\<lparr>media := fs1\<rparr>)
      else if fs_exists fs1 (image_target H st sc sid data mime mid)
        then (Inr (image_descriptor H st sc sid data mime mid), st\<lparr>media := fs1\<rparr>)
      else if \<not> fst (fs_write_bytes fs1 (image_target H st sc sid data mime mid) data)
        then (Inl FileError, st\<lparr>media := fs1\<rparr>)
      else (Inr (image_descriptor H st sc sid data mime mid),
            st\<lparr>media := snd (fs_write_bytes fs1 (image_target H st sc sid data mime mid) data),
               write_log := write_log st @ [image_target H st sc sid data mime mid]\<rparr>))"
  using assms by (simp add: save_image_def Let_def split_beta)

lemma save_image_history [simp]:
  "history_files (snd (save_image H st sc sid data mime mid)) = history_files st"
  by (simp add: save_image_def Let_def split_beta)

lemma save_image_sessions:
  "save_image H (st\<lparr>sessions := x\<rparr>) sc sid data mime mid
     = (fst (save_image H st sc sid data mime mid),
        (snd (save_image H st sc sid data mime mid))\<lparr>sessions := x\<rparr>)"
  by (simp add: save_image_def Let_def split_beta images_dir_def session_dir_def
      image_target_def image_descriptor_def)

lemma save_image_fst_cong:
  "media st' = media st \<Longrightarrow> base_dir st' = base_dir st \<Longrightarrow>
   fst (save_image H st' sc sid data mime mid) = fst (save_image H st sc sid data mime mid)"
  by (simp add: save_image_def Let_def split_beta images_dir_def session_dir_def
      image_target_def image_descriptor_def)

text \<open>
  The equations that evaluate \<open>save_image\<close> on a concrete store.
\<close>

lemmas fs_eval = save_image_def fs_mkdir_def fs_exists_def fs_write_bytes_def locate_def
  is_dir_def enter_def has_nul_def images_dir_def session_dir_def image_target_def
  image_filename_def image_descriptor_def joinpath_def parts_of_def is_abs_def
  after_last_slash_def relpath_def normpath_def truthy_def SessionStore_init_def
  example_store_def example_fs_def stored_store_def stored_fs_def example_env_def Let_def




text \<open>
  Claim C9. A descriptor returned by \<open>save_image\<close> carries the SHA-256 and the length of
  the bytes of this call. When a file of the derived name exists, with whatever content, no
  file is changed and nothing is written, and the call returns the descriptor of the
  argument bytes as soon as the image directory can be made; when moreover the derived name
  is a relative name with at least one component, the whole store is returned unchanged.
\<close>

theorem save_image_descriptor_of_argument:
  "(fst (save_image H st sc sid data mime mid) = Inr d \<longrightarrow>
      sha256 d = H data \<and> size_bytes d = int (length data))
   \<and> (fs_exists (media st) (image_target H st sc sid data mime mid) \<longrightarrow>
        files (media (snd (save_image H st sc sid data mime mid))) = files (media st)
        \<and> write_log (snd (save_image H st sc sid data mime mid)) = write_log st
        \<and> (fst (fs_mkdir (media st) (images_dir st sc sid)) \<longrightarrow>
             fst (save_image H st sc sid data mime mid)
               = Inr (image_descriptor H st sc sid data mime mid)))
   \<and> (fs_exists (media st) (image_target H st sc sid data mime mid)
        \<and> \<not> is_abs (image_filename H data mime mid)
        \<and> parts_of (image_filename H data mime mid) \<noteq> [] \<longrightarrow>
        save_image H st sc sid data mime mid
          = (Inr (image_descriptor H st sc sid data mime mid), st))"
proof (intro conjI impI)
  let ?I = "images_dir st sc sid"
  let ?T = "image_target H st sc sid data mime mid"
  let ?D = "image_descriptor H st sc sid data mime mid"
  obtain made fs1 where m: "fs_mkdir (media st) ?I = (made, fs1)"
    by (cases "fs_mkdir (media st) ?I")
  note u = save_image_unfold [OF m, of H data mime mid]
  note f = fs_mkdir_frame [OF m]
  {
    assume "fst (save_image H st sc sid data mime mid) = Inr d"
    then have "d = ?D" unfolding u by (auto split: if_splits)
    then show "sha256 d = H data" and "size_bytes d = int (length data)"
      by (simp_all add: image_descriptor_def)
  }
  {
    assume e: "fs_exists (media st) ?T"
    from fs_exists_mono [OF e] f have e1: "fs_exists fs1 ?T" by simp
    from e1 f show "files (media (snd (save_image H st sc sid data mime mid))) = files (media st)"
      unfolding u by simp
    from e1 show "write_log (snd (save_image H st sc sid data mime mid)) = write_log st"
      unfolding u by simp
    assume "fst (fs_mkdir (media st) ?I)"
    with m e1 show "fst (save_image H st sc sid data mime mid) = Inr ?D"
      unfolding u by simp
  }
  {
    assume a: "fs_exists (media st) ?T \<and> \<not> is_abs (image_filename H data mime mid)
        \<and> parts_of (image_filename H data mime mid) \<noteq> []"
    let ?fp = "parts_of (image_filename H data mime mid)"
    from a have T: "?T = ?I @ ?fp" and fp: "?fp \<noteq> []"
      by (simp_all add: image_target_def joinpath_def)
    from a have e: "fs_exists (media st) ?T" by blast
    then have n: "\<not> has_nul ?I" unfolding T by (simp add: fs_exists_def)
    from e fp obtain cur where "walk (media st) [] (butlast (?I @ ?fp)) = Some cur"
      unfolding T by (auto simp: fs_exists_def locate_def split: option.splits if_splits)
    with fp obtain l where "walk (media st) [] ?I = Some l"
      by (auto simp: butlast_append walk_append split: option.splits)
    then have "mkdir_walk (media st) [] ?I = (True, media st)" by (rule walk_mkdir_noop)
    with n have m0: "fs_mkdir (media st) ?I = (True, media st)" by (simp add: fs_mkdir_def)
    show "save_image H st sc sid data mime mid = (Inr ?D, st)"
      unfolding save_image_unfold [OF m0] using e by simp
  }
qed

text \<open>
  The statement of C9 at a store holding \<open>old\<close> under the name derived from message id
  \<open>m1\<close>, saved again with the bytes \<open>new\<close>.
\<close>

theorem save_image_descriptor_of_argument_witness:
  "fs_exists (media stored_store)
     (image_target (sha256_hexdigest example_env) stored_store ''private'' ''s1'' ''new''
        ''image/png'' (Some ''m1''))
   \<and> \<not> is_abs (image_filename (sha256_hexdigest example_env) ''new'' ''image/png'' (Some ''m1''))
   \<and> parts_of (image_filename (sha256_hexdigest example_env) ''new'' ''image/png'' (Some ''m1''))
       \<noteq> []
   \<and> fst (fs_mkdir (media stored_store) (images_dir stored_store ''private'' ''s1''))
   \<and> save_image (sha256_hexdigest example_env) stored_store ''private'' ''s1'' ''new''
        ''image/png'' (Some ''m1'')
      = (Inr (image_descriptor (sha256_hexdigest example_env) stored_store ''private'' ''s1''
                ''new'' ''image/png'' (Some ''m1'')), stored_store)
   \<and> sha256 (image_descriptor (sha256_hexdigest example_env) stored_store ''private'' ''s1''
                ''new'' ''image/png'' (Some ''m1''))
      = sha256_hexdigest example_env ''new''
   \<and> size_bytes (image_descriptor (sha256_hexdigest example_env) stored_store ''private'' ''s1''
                ''new'' ''image/png'' (Some ''m1'')) = 3
   \<and> files (media stored_store) [''srv'', ''bot'', ''private'', ''s1'', ''images'', ''m1.png'']
      = Some ''old''"
proof -
  let ?H = "sha256_hexdigest example_env"
  let ?D = "image_descriptor ?H stored_store ''private'' ''s1'' ''new'' ''image/png'' (Some ''m1'')"
  have h1: "fs_exists (media stored_store)
     (image_target ?H stored_store ''private'' ''s1'' ''new'' ''image/png'' (Some ''m1''))"
    by (simp add: fs_eval)
  have h2: "\<not> is_abs (image_filename ?H ''new'' ''image/png'' (Some ''m1''))"
    by (simp add: fs_eval)
  have h3: "parts_of (image_filename ?H ''new'' ''image/png'' (Some ''m1'')) \<noteq> []"
    by (simp add: fs_eval)
  have h4: "fst (fs_mkdir (media stored_store) (images_dir stored_store ''private'' ''s1''))"
    by (simp add: fs_eval)
  have f: "files (media stored_store) [''srv'', ''bot'', ''private'', ''s1'', ''images'', ''m1.png'']
      = Some ''old''"
    by (simp add: fs_eval)
  note c = save_image_descriptor_of_argument [of ?H stored_store "''private''" "''s1''" "''new''" "''image/png''" "Some ''m1''" ?D]
  from c h1 h2 h3 have s: "save_image ?H stored_store ''private'' ''s1'' ''new'' ''image/png''
      (Some ''m1'') = (Inr ?D, stored_store)"
    by blast
  then have "fst (save_image ?H stored_store ''private'' ''s1'' ''new'' ''image/png''
      (Some ''m1'')) = Inr ?D" by simp
  with c have "sha256 ?D = ?H ''new'' \<and> size_bytes ?D = int (length ''new'')" by blast
  with h1 h2 h3 h4 f s show ?thesis by simp
qed

subsection \<open>Reply generation\<close>

lemma call_model_store [simp]:
  "store (snd (call_model e self session im ms rt)) = store self"
  by (simp add: call_model_def Let_def split: sum.splits option.splits)

lemma call_model_config [simp]:
  "config (snd (call_model e self session im ms rt)) = config self"
  by (simp add: call_model_def Let_def split: sum.splits option.splits)

lemma call_model_requests [simp]:
  "llm_requests (snd (call_model e self session im ms rt)) = llm_requests self @ [ms]"
  by (simp add: call_model_def Let_def split: sum.splits option.splits)

lemma call_model_sent [simp]:
  "sent_texts (snd (call_model e self session im ms rt)) = sent_texts self"
  by (simp add: call_model_def Let_def split: sum.splits option.splits)





lemma register_failure_others:
  "k \<noteq> key \<Longrightarrow> failures (register_failure t key now) k = failures t k"
  by (simp add: register_failure_def Let_def)



subsection \<open>The handler\<close>

lemma resolve_session_of_frame [simp]:
  "config (snd (resolve_session_of e self msg)) = config self"
  "dedupe (snd (resolve_session_of e self msg)) = dedupe self"
  "failure_tracker (snd (resolve_session_of e self msg)) = failure_tracker self"
  "history_files (store (snd (resolve_session_of e self msg))) = history_files (store self)"
  by (simp_all add: resolve_session_of_def resolve_session_def Let_def split_beta)

lemma resolve_session_of_media [simp]:
  "media (store (snd (resolve_session_of e self msg))) = media (store self)"
  "base_dir (store (snd (resolve_session_of e self msg))) = base_dir (store self)"
  "session_cooldown (snd (resolve_session_of e self msg)) = session_cooldown self"
  by (simp_all add: resolve_session_of_def resolve_session_def Let_def split_beta)

lemma save_image_of_frame [simp]:
  "history_files (store (snd (save_image_of e self msg session))) = history_files (store self)"
  "session_cooldown (snd (save_image_of e self msg session)) = session_cooldown self"
  by (simp_all add: save_image_of_def Let_def split_beta)

lemma save_image_of_fst_cong:
  "media (store s') = media (store s) \<Longrightarrow> base_dir (store s') = base_dir (store s) \<Longrightarrow>
   fst (save_image_of e s' msg session) = fst (save_image_of e s msg session)"
  using save_image_fst_cong [of "store s'" "store s"]
  by (simp add: save_image_of_def Let_def split_beta)


lemma load_history_append [simp]:
  "load_history (append_history st sc sid r) sc sid = load_history st sc sid @ [r]"
  by (simp add: append_history_def load_history_def get_or_def)



text \<open>
  An event that passes the three filters and whose trigger evaluation or image saving raises
  leaves the handler with an exception and every history as it was.
\<close>

lemma handle_message_raises:
  assumes "\<not> is_self_message (config self) msg"
    and "\<not> fst (seen_recently (dedupe self)
                 (if message_id msg \<noteq> [] then message_id msg else hash_content e msg)
                 (now_dedupe e))"
    and "\<not> is_blocked (failure_tracker self) (session_id (fst (resolve_session_of e self msg)))
             (now_blocked e)"
    and "should_trigger e (config self) msg = None
         \<or> fst (save_image_of e self msg (fst (resolve_session_of e self msg))) = Inl exc"
  shows "snd (handle_message e self msg) \<noteq> None"
    and "history_files (store (fst (handle_message e self msg))) = history_files (store self)"
proof -
  obtain session self1 where r: "resolve_session_of e self msg = (session, self1)"
    by (cases "resolve_session_of e self msg")
  have s1: "config self1 = config self" "dedupe self1 = dedupe self"
    "failure_tracker self1 = failure_tracker self"
    "history_files (store self1) = history_files (store self)"
    "media (store self1) = media (store self)" "base_dir (store self1) = base_dir (store self)"
    using resolve_session_of_frame [of e self msg] resolve_session_of_media [of e self msg]
    by (simp_all add: r)
  let ?key = "if message_id msg \<noteq> [] then message_id msg else hash_content e msg"
  obtain seen dd where d: "seen_recently (dedupe self) ?key (now_dedupe e) = (seen, dd)"
    by (cases "seen_recently (dedupe self) ?key (now_dedupe e)")
  have ns: "\<not> seen" using assms(2) d by simp
  let ?self2 = "self1\<lparr>dedupe := dd\<rparr>"
  have nb: "\<not> is_blocked (failure_tracker ?self2) (session_id session) (now_blocked e)"
    using assms(3) r s1 by simp
  obtain saved self3 where sv: "save_image_of e ?self2 msg session = (saved, self3)"
    by (cases "save_image_of e ?self2 msg session")
  have sf: "saved = fst (save_image_of e self msg session)"
    using save_image_of_fst_cong [of ?self2 self e msg session] sv s1 by simp
  have h3: "history_files (store self3) = history_files (store self)"
    using save_image_of_frame(1) [of e ?self2 msg session] sv s1 by simp
  have hm: "handle_message e self msg
      = (case should_trigger e (config self) msg of
           None \<Rightarrow> (?self2, Some ReError)
         | Some should_reply \<Rightarrow>
             (case saved of
                Inl exc \<Rightarrow> (self3, Some exc)
              | Inr image_meta \<Rightarrow>
                  let self4 = append_history_of self3 msg session image_meta
                  in if \<not> should_reply then (self4, None)
                     else (reply_stage e self4 msg session image_meta, None)))"
    using assms(1) ns nb
    by (simp add: handle_message_def r d s1 sv Let_def split: option.splits)
  show "snd (handle_message e self msg) \<noteq> None"
  proof (cases "should_trigger e (config self) msg")
    case None
    then show ?thesis by (simp add: hm)
  next
    case (Some b)
    with assms(4) r sf have "saved = Inl exc" by simp
    with Some show ?thesis by (simp add: hm)
  qed
  show "history_files (store (fst (handle_message e self msg))) = history_files (store self)"
  proof (cases "should_trigger e (config self) msg")
    case None
    then show ?thesis by (simp add: hm s1)
  next
    case (Some b)
    with assms(4) r sf have "saved = Inl exc" by simp
    with Some show ?thesis by (simp add: hm h3)
  qed
qed


lemmas handler_eval = resolve_session_of_def resolve_session_def get_or_create_def
  WxAutoBot_init_def SessionStore_init_def example_store_def example_msg_def example_env_def
  example_session_def truthy_def Let_def






text \<open>
  An image event whose id has a slash is not recorded either: \<open>save_image\<close> raises before
  the append.
\<close>

lemma image_event_lost_example:
  "snd (handle_message example_env (WxAutoBot_init example_config example_store)
          example_image_msg) \<noteq> None
   \<and> load_history (store (fst (handle_message example_env
          (WxAutoBot_init example_config example_store) example_image_msg)))
        ''private'' ''0123456789abcdef'' = []"
proof -
  let ?self = "WxAutoBot_init example_config example_store"
  have h1: "\<not> is_self_message (config ?self) example_image_msg"
    by (simp add: WxAutoBot_init_def is_self_message_def example_config_def truthy_def)
  have h3: "\<not> fst (seen_recently (dedupe ?self)
               (if message_id example_image_msg \<noteq> [] then message_id example_image_msg
                else hash_content example_env example_image_msg) (now_dedupe example_env))"
    by (simp add: seen_recently_def drop_expired_def WxAutoBot_init_def DedupeCache_init_def
        Let_def)
  have h4: "\<not> is_blocked (failure_tracker ?self)
               (session_id (fst (resolve_session_of example_env ?self example_image_msg)))
               (now_blocked example_env)"
    by (simp add: is_blocked_def get_or_def WxAutoBot_init_def FailureTracker_init_def)
  have rs: "fst (resolve_session_of example_env ?self example_image_msg) = example_session"
    by (simp add: handler_eval example_image_msg_def)
  have sv: "fst (save_image_of example_env ?self example_image_msg
                   (fst (resolve_session_of example_env ?self example_image_msg)))
              = Inl FileError"
    unfolding rs
    by (simp add: save_image_of_def example_image_msg_def example_msg_def example_session_def
        WxAutoBot_init_def split_beta fs_eval)
  have r: "snd (handle_message example_env ?self example_image_msg) \<noteq> None"
    using handle_message_raises(1) [OF h1 h3 h4] sv by blast
  have "history_files (store (fst (handle_message example_env ?self example_image_msg)))
          = history_files (store ?self)"
    using handle_message_raises(2) [OF h1 h3 h4] sv by blast
  then have "load_history (store (fst (handle_message example_env ?self example_image_msg)))
          ''private'' ''0123456789abcdef'' = []"
    by (simp add: load_history_def get_or_def WxAutoBot_init_def example_store_def
        SessionStore_init_def)
  with r show ?thesis by blast
qed

end
